theory Spec2Isabelle
  imports Main "HOL-Library.Sublist"
begin

section \<open>Values of the JavaScript runtime\<close>

text \<open>
  The plugin reads the bodies of three web services as untyped JSON. A parsed body is a
  \<open>jsval\<close>; \<open>JUndefined\<close> is what reading a missing property gives. Strings are lists of
  characters, each character read as one code unit in the range U+0000 to U+00FF.
  Numbers are integers. In an object literal a later binding of a key shadows an earlier
  one, as \<open>JSON.parse\<close> has it.
\<close>

datatype jsval =
    JUndefined
  | JNull
  | JBool bool
  | JNum int
  | JStr string
  | JArr "jsval list"
  | JObj "(string \<times> jsval) list"

datatype error = TypeError | NetworkFailure | SyntaxError

text \<open>ToBoolean, as used by \<open>if (v)\<close>, \<open>a && b\<close> and \<open>!v\<close>.\<close>

fun truthy :: "jsval \<Rightarrow> bool" where
  "truthy JUndefined = False"
| "truthy JNull = False"
| "truthy (JBool b) = b"
| "truthy (JNum n) = (n \<noteq> 0)"
| "truthy (JStr s) = (s \<noteq> [])"
| "truthy (JArr xs) = True"
| "truthy (JObj kvs) = True"

definition own_prop :: "(string \<times> jsval) list \<Rightarrow> string \<Rightarrow> jsval" where
  "own_prop kvs k = (case map_of (rev kvs) k of None \<Rightarrow> JUndefined | Some v \<Rightarrow> v)"

text \<open>
  \<open>v.k\<close> for the property names this program reads (\<open>title\<close>, \<open>items\<close>, \<open>length\<close>,
  \<open>snippet\<close>, ...), none of which is inherited from a built-in prototype other than
  \<open>length\<close> of arrays and strings. Reading a property of \<open>null\<close> or \<open>undefined\<close> throws.
\<close>

fun get_prop :: "jsval \<Rightarrow> string \<Rightarrow> error + jsval" where
  "get_prop JUndefined k = Inl TypeError"
| "get_prop JNull k = Inl TypeError"
| "get_prop (JBool b) k = Inr JUndefined"
| "get_prop (JNum n) k = Inr JUndefined"
| "get_prop (JStr s) k = Inr (if k = ''length'' then JNum (int (length s)) else JUndefined)"
| "get_prop (JArr xs) k = Inr (if k = ''length'' then JNum (int (length xs)) else JUndefined)"
| "get_prop (JObj kvs) k = Inr (own_prop kvs k)"

text \<open>\<open>v[0]\<close>.\<close>

fun get_first :: "jsval \<Rightarrow> error + jsval" where
  "get_first JUndefined = Inl TypeError"
| "get_first JNull = Inl TypeError"
| "get_first (JBool b) = Inr JUndefined"
| "get_first (JNum n) = Inr JUndefined"
| "get_first (JStr s) = Inr (case s of [] \<Rightarrow> JUndefined | c # _ \<Rightarrow> JStr [c])"
| "get_first (JArr xs) = Inr (case xs of [] \<Rightarrow> JUndefined | x # _ \<Rightarrow> x)"
| "get_first (JObj kvs) = Inr (own_prop kvs ''0'')"

text \<open>
  Decimal rendering of an integer, as \<open>String(n)\<close> gives it for a magnitude below
  \<open>10\<^sup>2\<^sup>1\<close>; from there on the runtime writes an exponent, which is not modelled.
\<close>

fun digits :: "nat \<Rightarrow> string" where
  "digits n = (if n < 10 then [char_of (48 + n)] else digits (n div 10) @ [char_of (48 + n mod 10)])"

declare digits.simps [simp del]

definition show_int :: "int \<Rightarrow> string" where
  "show_int n = (if n < 0 then CHR ''-'' # digits (nat (- n)) else digits (nat n))"

fun intersperse :: "string \<Rightarrow> string list \<Rightarrow> string" where
  "intersperse sep [] = []"
| "intersperse sep [x] = x"
| "intersperse sep (x # y # zs) = x @ sep @ intersperse sep (y # zs)"

fun sequence_e :: "(error + 'a) list \<Rightarrow> error + 'a list" where
  "sequence_e [] = Inr []"
| "sequence_e (x # xs) =
     (case x of Inl e \<Rightarrow> Inl e
      | Inr v \<Rightarrow> (case sequence_e xs of Inl e \<Rightarrow> Inl e | Inr vs \<Rightarrow> Inr (v # vs)))"

text \<open>
  ToString, as applied by string concatenation, by a template literal and by the
  assignment to a string-valued DOM attribute. A parsed JSON object has no callable
  property, so an own \<open>toString\<close> key leaves no method to call and the conversion throws;
  otherwise the inherited method answers \<open>[object Object]\<close>. An array is joined with
  commas, \<open>null\<close> and \<open>undefined\<close> elements giving the empty string.
\<close>

fun to_string :: "jsval \<Rightarrow> error + string" where
  "to_string JUndefined = Inr ''undefined''"
| "to_string JNull = Inr ''null''"
| "to_string (JBool b) = Inr (if b then ''true'' else ''false'')"
| "to_string (JNum n) = Inr (show_int n)"
| "to_string (JStr s) = Inr s"
| "to_string (JArr xs) =
     (case sequence_e (map (\<lambda>x. if x = JUndefined \<or> x = JNull then Inr [] else to_string x) xs) of
        Inl e \<Rightarrow> Inl e
      | Inr ss \<Rightarrow> Inr (intersperse '','' ss))"
| "to_string (JObj kvs) =
     (if ''toString'' \<in> fst ` set kvs then Inl TypeError else Inr ''[object Object]'')"

text \<open>
  \<open>v > 0\<close>. A string operand is first converted to a number by the runtime; whether
  that number is positive is the parameter \<open>pos\<close>.
\<close>

fun gt_zero :: "(string \<Rightarrow> bool) \<Rightarrow> jsval \<Rightarrow> error + bool" where
  "gt_zero pos JUndefined = Inr False"
| "gt_zero pos JNull = Inr False"
| "gt_zero pos (JBool b) = Inr b"
| "gt_zero pos (JNum n) = Inr (0 < n)"
| "gt_zero pos (JStr s) = Inr (pos s)"
| "gt_zero pos (JArr xs) =
     (case to_string (JArr xs) of Inl e \<Rightarrow> Inl e | Inr s \<Rightarrow> Inr (pos s))"
| "gt_zero pos (JObj kvs) =
     (if ''toString'' \<in> fst ` set kvs then Inl TypeError else Inr False)"

section \<open>Settings and the world outside the plugin\<close>

record settings =
  showThumbnail :: bool
  showChannelIcon :: bool
  apiKey :: string

definition DEFAULT_SETTINGS :: settings where
  "DEFAULT_SETTINGS = \<lparr>showThumbnail = True, showChannelIcon = True, apiKey = ''''\<rparr>"

text \<open>
  What a request gives: \<open>fetch\<close> rejects, \<open>response.json()\<close> rejects, or a parsed body.
\<close>

datatype fetch_result = Failed | Malformed | Body jsval

text \<open>
  The environment of a run: the answer of the network to the \<open>n\<close>-th request of the run
  when it asks for a given address, and the runtime's test for a positive numeric string.
\<close>

record env =
  net :: "nat \<Rightarrow> string \<Rightarrow> fetch_result"
  str_positive :: "string \<Rightarrow> bool"

text \<open>
  The effects the plugin has on its host: the addresses requested, the entries written
  with \<open>console.error\<close>, the notices shown to the user and the settings last handed to
  \<open>saveData\<close>. Lists grow at the end.
\<close>

record world =
  requests :: "string list"
  console :: "(string \<times> error) list"
  notices :: "string list"
  persisted :: "settings option"

definition fetch_json :: "env \<Rightarrow> world \<Rightarrow> string \<Rightarrow> world \<times> (error + jsval)" where
  "fetch_json E w url =
     (w\<lparr>requests := requests w @ [url]\<rparr>,
      case net E (length (requests w)) url of
        Failed \<Rightarrow> Inl NetworkFailure
      | Malformed \<Rightarrow> Inl SyntaxError
      | Body v \<Rightarrow> Inr v)"

definition console_error :: "string \<Rightarrow> error \<Rightarrow> world \<Rightarrow> world" where
  "console_error msg e w = w\<lparr>console := console w @ [(msg, e)]\<rparr>"

section \<open>Saving the settings\<close>

text \<open>
  \<open>saveSettings\<close> of the variant with the channel icon. The result says whether
  \<open>saveData\<close> was reached.
\<close>

definition saveSettings :: "settings \<Rightarrow> world \<Rightarrow> world \<times> bool" where
  "saveSettings s w =
     (if showChannelIcon s \<and> apiKey s = []
      then (w\<lparr>notices := notices w @ [''API Key is required when Channel Icon is enabled.'']\<rparr>, False)
      else (w\<lparr>persisted := Some s\<rparr>, True))"

section \<open>Recognising a video address\<close>

text \<open>
  The regular expression of both variants, as a syntax tree:
  \<^verbatim>\<open>/https?:\/\/(www\.)?(youtube\.com|youtu\.be)\/\S+/\<close>.
  \<open>NonSpaces\<close> is \<^verbatim>\<open>\S+\<close>. The white space characters below U+0100 are tab, line
  feed, vertical tab, form feed, carriage return, space and no-break space.
\<close>

definition is_space :: "char \<Rightarrow> bool" where
  "is_space c = (of_char c \<in> {9, 10, 11, 12, 13, 32, 160 :: nat})"

datatype rx = Lit string | NonSpaces | Opt rx | Alt rx rx | Seq rx rx

definition youtubeRegex :: rx where
  "youtubeRegex =
     Seq (Lit ''http'') (Seq (Opt (Lit ''s'')) (Seq (Lit ''://'') (Seq (Opt (Lit ''www.''))
       (Seq (Alt (Lit ''youtube.com'') (Lit ''youtu.be'')) (Seq (Lit ''/'') NonSpaces)))))"

text \<open>
  A backtracking matcher: \<open>rmatch r s\<close> lists what is left of \<open>s\<close> after each way of
  matching \<open>r\<close> at its start, in the order the matcher tries them (an optional part
  taken before it is skipped, the left alternative first, \<^verbatim>\<open>\S+\<close> longest first).
\<close>

fun rmatch :: "rx \<Rightarrow> string \<Rightarrow> string list" where
  "rmatch (Lit l) s = (if prefix l s then [drop (length l) s] else [])"
| "rmatch NonSpaces s =
     map (\<lambda>j. drop j s) (rev [1 ..< Suc (length (takeWhile (\<lambda>c. \<not> is_space c) s))])"
| "rmatch (Opt r) s = rmatch r s @ [s]"
| "rmatch (Alt a b) s = rmatch a s @ rmatch b s"
| "rmatch (Seq a b) s = concat (map (rmatch b) (rmatch a s))"

text \<open>
  The first match in \<open>s\<close>, searching from the left: the text before it, the matched
  text and the text after it.
\<close>

fun rx_exec :: "rx \<Rightarrow> string \<Rightarrow> (string \<times> string \<times> string) option" where
  "rx_exec r [] = (case rmatch r [] of [] \<Rightarrow> None | t # _ \<Rightarrow> Some ([], [], []))"
| "rx_exec r (c # s) =
     (case rmatch r (c # s) of
        t # _ \<Rightarrow> Some ([], take (length (c # s) - length t) (c # s), t)
      | [] \<Rightarrow> map_option (\<lambda>(p, m, t). (c # p, m, t)) (rx_exec r s))"

definition rx_test :: "rx \<Rightarrow> string \<Rightarrow> bool" where
  "rx_test r s = (rx_exec r s \<noteq> None)"

definition isYouTubeUrl :: "string \<Rightarrow> bool" where
  "isYouTubeUrl u = rx_test youtubeRegex u"

text \<open>
  What the pattern means, apart from any matcher: the set of strings each expression
  stands for.
\<close>

fun lang :: "rx \<Rightarrow> string set" where
  "lang (Lit l) = {l}"
| "lang NonSpaces = {m. m \<noteq> [] \<and> (\<forall>c \<in> set m. \<not> is_space c)}"
| "lang (Opt r) = insert [] (lang r)"
| "lang (Alt a b) = lang a \<union> lang b"
| "lang (Seq a b) = {m @ n | m n. m \<in> lang a \<and> n \<in> lang b}"

section \<open>Resolving the metadata of a video\<close>

text \<open>
  \<open>encodeURIComponent\<close>: the unreserved characters stay, every other code unit is written
  as the escaped bytes of its UTF-8 form (one byte below U+0080, two bytes from there).
\<close>

definition unreserved :: "char \<Rightarrow> bool" where
  "unreserved c =
     (c \<in> set ''ABCDEFGHIJKLMNOPQRSTUVWXYZabcdefghijklmnopqrstuvwxyz0123456789-_.!~*()''
      \<or> c = CHR 0x27)"

definition hex_digit :: "nat \<Rightarrow> char" where
  "hex_digit n = ''0123456789ABCDEF'' ! (n mod 16)"

definition pct :: "nat \<Rightarrow> string" where
  "pct n = [CHR ''%'', hex_digit (n div 16), hex_digit n]"

definition encode_unit :: "char \<Rightarrow> string" where
  "encode_unit c =
     (if unreserved c then [c]
      else if (of_char c :: nat) < 128 then pct (of_char c)
      else pct (192 + of_char c div 64) @ pct (128 + of_char c mod 64))"

definition encodeURIComponent :: "string \<Rightarrow> string" where
  "encodeURIComponent s = concat (map encode_unit s)"

text \<open>Sequencing of steps that may throw, without and with effects on the world.\<close>

definition bind_e :: "error + 'a \<Rightarrow> ('a \<Rightarrow> error + 'b) \<Rightarrow> error + 'b" where
  "bind_e m f = (case m of Inl e \<Rightarrow> Inl e | Inr v \<Rightarrow> f v)"

definition bind_w ::
  "world \<times> (error + 'a) \<Rightarrow> ('a \<Rightarrow> world \<Rightarrow> world \<times> (error + 'b)) \<Rightarrow> world \<times> (error + 'b)" where
  "bind_w m f = (case m of (w, Inl e) \<Rightarrow> (w, Inl e) | (w, Inr v) \<Rightarrow> f v w)"

text \<open>The test \<open>data.items && data.items.length > 0\<close> of both channel lookups.\<close>

definition has_items :: "env \<Rightarrow> jsval \<Rightarrow> error + bool" where
  "has_items E data =
     bind_e (get_prop data ''items'') (\<lambda>items.
       if truthy items then bind_e (get_prop items ''length'') (gt_zero (str_positive E))
       else Inr False)"

text \<open>
  The two reads of a body: \<open>data.items[0].snippet.channelId\<close> and
  \<open>data.items[0].snippet.thumbnails.default.url\<close>.
\<close>

definition channel_id_of :: "jsval \<Rightarrow> error + jsval" where
  "channel_id_of data =
     bind_e (get_prop data ''items'') (\<lambda>items.
     bind_e (get_first items) (\<lambda>item.
     bind_e (get_prop item ''snippet'') (\<lambda>snippet.
     get_prop snippet ''channelId'')))"

definition icon_url_of :: "jsval \<Rightarrow> error + jsval" where
  "icon_url_of data =
     bind_e (get_prop data ''items'') (\<lambda>items.
     bind_e (get_first items) (\<lambda>item.
     bind_e (get_prop item ''snippet'') (\<lambda>snippet.
     bind_e (get_prop snippet ''thumbnails'') (\<lambda>thumbnails.
     bind_e (get_prop thumbnails ''default'') (\<lambda>dflt.
     get_prop dflt ''url'')))))"

text \<open>
  \<open>getChannelIdFromUrl\<close>. The address is put together before the \<open>try\<close> block is
  entered, so a reference that cannot be converted to a string makes the call throw.
\<close>

definition search_url :: "string \<Rightarrow> string \<Rightarrow> string" where
  "search_url customUrl key =
     ''https://www.googleapis.com/youtube/v3/search?part=snippet&q='' @ customUrl @
     ''&type=channel&key='' @ key"

definition getChannelIdFromUrl :: "settings \<Rightarrow> env \<Rightarrow> world \<Rightarrow> jsval \<Rightarrow> world \<times> (error + jsval)" where
  "getChannelIdFromUrl S E w customUrl =
     (case to_string customUrl of
        Inl e \<Rightarrow> (w, Inl e)
      | Inr c \<Rightarrow>
          (case bind_w (fetch_json E w (search_url c (apiKey S))) (\<lambda>data w1.
                  (w1, bind_e (has_items E data) (\<lambda>found.
                     if found then channel_id_of data else Inr JNull))) of
             (w1, Inl e) \<Rightarrow> (console_error ''Error fetching channel ID:'' e w1, Inr JNull)
           | (w1, Inr v) \<Rightarrow> (w1, Inr v)))"

text \<open>
  \<open>fetchChannelIcon\<close>. Inside the \<open>try\<close> block the value \<open>None\<close> stands for reaching its
  end without a \<open>return\<close>; the function then returns \<open>null\<close>.
\<close>

definition channels_url :: "string \<Rightarrow> string \<Rightarrow> string" where
  "channels_url channelId key =
     ''https://www.googleapis.com/youtube/v3/channels?part=snippet&id='' @ channelId @
     ''&key='' @ key"

definition fetchChannelIcon :: "settings \<Rightarrow> env \<Rightarrow> world \<Rightarrow> jsval \<Rightarrow> world \<times> (error + jsval)" where
  "fetchChannelIcon S E w channelUrl =
     (case bind_w (getChannelIdFromUrl S E w channelUrl) (\<lambda>channelId w1.
             case to_string channelId of
               Inl e \<Rightarrow> (w1, Inl e)
             | Inr cid \<Rightarrow>
                 bind_w (fetch_json E w1 (channels_url cid (apiKey S))) (\<lambda>data w2.
                   (w2, bind_e (has_items E data) (\<lambda>found.
                      if found then bind_e (icon_url_of data) (\<lambda>v. Inr (Some v))
                      else Inr None)))) of
        (w', Inl e) \<Rightarrow> (console_error ''Error fetching channel icon:'' e w', Inr JNull)
      | (w', Inr None) \<Rightarrow> (w', Inr JNull)
      | (w', Inr (Some v)) \<Rightarrow> (w', Inr v))"

text \<open>
  The record a resolution returns. The variant without the channel icon returns the
  first three fields; the other variant adds the address and the icon. A field holds
  whatever the body held under that name.
\<close>

record metadata_main =
  title :: jsval
  author_name :: jsval
  thumbnail_url :: jsval

record metadata = metadata_main +
  url :: string
  channel_icon_url :: jsval

definition embed_url :: "string \<Rightarrow> string" where
  "embed_url u = ''https://noembed.com/embed?url='' @ encodeURIComponent u"

text \<open>
  \<open>fetchVideoMetadata\<close> of the variant with the channel icon; \<open>None\<close> is \<open>null\<close>.
\<close>

definition fetchVideoMetadata ::
  "settings \<Rightarrow> env \<Rightarrow> world \<Rightarrow> string \<Rightarrow> world \<times> (error + metadata option)" where
  "fetchVideoMetadata S E w u =
     (case bind_w (fetch_json E w (embed_url u)) (\<lambda>data w1.
             if truthy data
             then bind_w (if showChannelIcon S
                          then bind_w (w1, get_prop data ''author_url'') (\<lambda>a w. fetchChannelIcon S E w a)
                          else (w1, Inr JNull)) (\<lambda>channelIconUrl w2.
                    (w2, bind_e (get_prop data ''title'') (\<lambda>t.
                         bind_e (get_prop data ''author_name'') (\<lambda>a.
                         bind_e (get_prop data ''thumbnail_url'') (\<lambda>th.
                         Inr (Some \<lparr>title = t, author_name = a, thumbnail_url = th,
                                     url = u, channel_icon_url = channelIconUrl\<rparr>))))))
             else (w1, Inr None)) of
        (w', Inl e) \<Rightarrow> (console_error ''Error fetching video metadata:'' e w', Inr None)
      | (w', Inr r) \<Rightarrow> (w', Inr r))"

text \<open>\<open>fetchVideoMetadata\<close> of the variant without the channel icon.\<close>

definition fetchVideoMetadata_main ::
  "env \<Rightarrow> world \<Rightarrow> string \<Rightarrow> world \<times> (error + metadata_main option)" where
  "fetchVideoMetadata_main E w u =
     (case bind_w (fetch_json E w (embed_url u)) (\<lambda>data w1.
             if truthy data
             then (w1, bind_e (get_prop data ''title'') (\<lambda>t.
                       bind_e (get_prop data ''author_name'') (\<lambda>a.
                       bind_e (get_prop data ''thumbnail_url'') (\<lambda>th.
                       Inr (Some \<lparr>title = t, author_name = a, thumbnail_url = th\<rparr>)))))
             else (w1, Inr None)) of
        (w', Inl e) \<Rightarrow> (console_error ''Error fetching video metadata:'' e w', Inr None)
      | (w', Inr r) \<Rightarrow> (w', Inr r))"

section \<open>The document\<close>

text \<open>
  A rendered fragment is a tree of text nodes and elements; an element has a tag, its
  attributes in the order they were set, and its children.
\<close>

datatype node = Text string | Elem string "(string \<times> string) list" "node list"

definition createElement :: "string \<Rightarrow> node" where
  "createElement tag = Elem tag [] []"

fun getAttribute :: "node \<Rightarrow> string \<Rightarrow> string option" where
  "getAttribute (Elem t as cs) k = map_of as k"
| "getAttribute (Text s) k = None"

fun setAttribute :: "string \<Rightarrow> string \<Rightarrow> node \<Rightarrow> node" where
  "setAttribute k v (Elem t as cs) =
     Elem t (if k \<in> fst ` set as then map (\<lambda>(k', v'). (k', if k' = k then v else v')) as
             else as @ [(k, v)]) cs"
| "setAttribute k v (Text s) = Text s"

text \<open>
  \<open>classList.add\<close>; the program only calls it on an element it has just created, so
  the token is never there already.
\<close>

definition classList_add :: "string \<Rightarrow> node \<Rightarrow> node" where
  "classList_add c n =
     (case getAttribute n ''class'' of
        None \<Rightarrow> setAttribute ''class'' c n
      | Some old \<Rightarrow> setAttribute ''class'' (old @ '' '' @ c) n)"

fun appendChild :: "node \<Rightarrow> node \<Rightarrow> node" where
  "appendChild child (Elem t as cs) = Elem t as (cs @ [child])"
| "appendChild child (Text s) = Text s"

text \<open>
  \<open>parent.insertBefore(new, ref)\<close>, where \<open>ref\<close> is a child of \<open>parent\<close> that no earlier
  child equals.
\<close>

fun insertBefore :: "node \<Rightarrow> node \<Rightarrow> node \<Rightarrow> node" where
  "insertBefore new ref (Elem t as cs) =
     Elem t as (takeWhile (\<lambda>c. c \<noteq> ref) cs @ new # dropWhile (\<lambda>c. c \<noteq> ref) cs)"
| "insertBefore new ref (Text s) = Text s"

text \<open>
  Assigning to \<open>textContent\<close>: \<open>null\<close> and \<open>undefined\<close> count as the empty string, and
  the empty string leaves the element without children.
\<close>

definition dom_text :: "jsval \<Rightarrow> error + string" where
  "dom_text v = (if v = JUndefined \<or> v = JNull then Inr [] else to_string v)"

fun textContent_set :: "string \<Rightarrow> node \<Rightarrow> node" where
  "textContent_set s (Elem t as cs) = Elem t as (if s = [] then [] else [Text s])"
| "textContent_set s (Text _) = Text s"

section \<open>Building the replacement\<close>

text \<open>\<open>createPrettyLink\<close> of the variant with the channel icon.\<close>

definition createPrettyLink :: "settings \<Rightarrow> metadata \<Rightarrow> error + node" where
  "createPrettyLink S m =
     (let container = createElement ''a'';
          container = classList_add ''video-metadata-container'' container;
          container = setAttribute ''href'' (url m) container;
          container = setAttribute ''target'' ''_blank'' container;
          container = setAttribute ''rel'' ''noopener noreferrer'' container
      in bind_e (if showThumbnail S
                 then bind_e (to_string (thumbnail_url m)) (\<lambda>src.
                        let thumbnailElement = createElement ''img'';
                            thumbnailElement = classList_add ''video-thumbnail'' thumbnailElement;
                            thumbnailElement = setAttribute ''src'' src thumbnailElement
                        in Inr (appendChild thumbnailElement container))
                 else Inr container) (\<lambda>container.
         let banner = classList_add ''banner'' (createElement ''div'');
             textContainer = classList_add ''video-text-container'' (createElement ''div'')
         in bind_e (dom_text (title m)) (\<lambda>t.
            let titleElement = textContent_set t (createElement ''strong'');
                textContainer = appendChild titleElement textContainer
            in bind_e (dom_text (author_name m)) (\<lambda>a.
               let authorNameElement = textContent_set a (createElement ''span'');
                   textContainer = appendChild authorNameElement textContainer
               in bind_e (if truthy (channel_icon_url m)
                          then bind_e (to_string (channel_icon_url m)) (\<lambda>src.
                                 let channelImage = createElement ''img'';
                                     channelImage = classList_add ''channel-icon'' channelImage;
                                     channelImage = setAttribute ''src'' src channelImage
                                 in Inr (appendChild channelImage banner))
                          else Inr banner) (\<lambda>banner.
                  let banner = appendChild textContainer banner;
                      container = appendChild banner container
                  in Inr container)))))"

text \<open>\<open>createPrettyLink\<close> of the variant without the channel icon.\<close>

definition createPrettyLink_main :: "settings \<Rightarrow> 'a metadata_main_scheme \<Rightarrow> error + node" where
  "createPrettyLink_main S m =
     (let container = classList_add ''video-metadata-container'' (createElement ''div'')
      in bind_e (dom_text (title m)) (\<lambda>t.
         let titleElement = classList_add ''video-title'' (createElement ''div'');
             titleElement = textContent_set t titleElement
         in bind_e (to_string (author_name m)) (\<lambda>a.
            let authorElement = classList_add ''video-author'' (createElement ''div'');
                authorElement = textContent_set (''by '' @ a) authorElement;
                container = appendChild titleElement container;
                container = appendChild authorElement container
            in if showThumbnail S
               then bind_e (to_string (thumbnail_url m)) (\<lambda>src.
                      let thumbnailElement = createElement ''img'';
                          thumbnailElement = classList_add ''video-thumbnail'' thumbnailElement;
                          thumbnailElement = setAttribute ''src'' src thumbnailElement
                      in Inr (insertBefore thumbnailElement titleElement container))
               else Inr container)))"

section \<open>The pass over the anchors of a fragment\<close>

text \<open>
  An element of the fragment is known by its path, the child indices leading to it from
  the root. \<open>descendants\<close> lists the nodes below the root in document order, which is the
  order of \<open>querySelectorAll\<close>.
\<close>

type_synonym path = "nat list"

fun descendants :: "node \<Rightarrow> (path \<times> node) list"
  and descendants_from :: "nat \<Rightarrow> node list \<Rightarrow> (path \<times> node) list" where
  "descendants (Text s) = []"
| "descendants (Elem t as cs) = descendants_from 0 cs"
| "descendants_from i [] = []"
| "descendants_from i (c # cs) =
     ([i], c) # map (\<lambda>(p, n). (i # p, n)) (descendants c) @ descendants_from (Suc i) cs"

fun is_anchor :: "node \<Rightarrow> bool" where
  "is_anchor (Elem t as cs) = (t = ''a'')"
| "is_anchor (Text s) = False"

definition querySelectorAll_a :: "node \<Rightarrow> (path \<times> node) list" where
  "querySelectorAll_a root = filter (\<lambda>(p, n). is_anchor n) (descendants root)"

fun replace_at :: "node \<Rightarrow> path \<Rightarrow> node \<Rightarrow> node" where
  "replace_at n [] new = new"
| "replace_at (Text s) (i # p) new = Text s"
| "replace_at (Elem t as cs) (i # p) new =
     (if i < length cs then Elem t as (cs[i := replace_at (cs ! i) p new]) else Elem t as cs)"

text \<open>
  The state of a pass: the world, the fragment, and the paths of the anchors replaced
  so far. \<open>anchor.replaceWith(new)\<close> puts \<open>new\<close> where the anchor is. Once an anchor is
  replaced, the anchors that were inside it hang below a node that is no longer part of
  the fragment: replacing one of them changes that detached node and not the fragment.
\<close>

record pass =
  pworld :: world
  fragment :: node
  replaced :: "path list"

definition replaceWith :: "path \<Rightarrow> node \<Rightarrow> pass \<Rightarrow> pass" where
  "replaceWith p new st =
     st\<lparr>fragment := (if \<exists>q \<in> set (replaced st). strict_prefix q p then fragment st
                       else replace_at (fragment st) p new),
        replaced := replaced st @ [p]\<rparr>"

text \<open>
  The loop of \<open>processMarkdown\<close> over the anchors found at its start. The second
  component of the result is the exception that ended the pass, if one did.
\<close>

fun process_anchors ::
  "settings \<Rightarrow> env \<Rightarrow> (path \<times> node) list \<Rightarrow> pass \<Rightarrow> pass \<times> error option" where
  "process_anchors S E [] st = (st, None)"
| "process_anchors S E ((p, anchor) # rest) st =
     (case getAttribute anchor ''href'' of
        None \<Rightarrow> process_anchors S E rest st
      | Some u \<Rightarrow>
          if u \<noteq> [] \<and> isYouTubeUrl u
          then (case fetchVideoMetadata S E (pworld st) u of
                  (w, Inl e) \<Rightarrow> (st\<lparr>pworld := w\<rparr>, Some e)
                | (w, Inr None) \<Rightarrow> process_anchors S E rest (st\<lparr>pworld := w\<rparr>)
                | (w, Inr (Some metadata)) \<Rightarrow>
                    (case createPrettyLink S metadata of
                       Inl e \<Rightarrow> (st\<lparr>pworld := w\<rparr>, Some e)
                     | Inr prettyLink \<Rightarrow>
                         process_anchors S E rest (replaceWith p prettyLink (st\<lparr>pworld := w\<rparr>))))
          else process_anchors S E rest st)"

definition processMarkdown :: "settings \<Rightarrow> env \<Rightarrow> world \<Rightarrow> node \<Rightarrow> pass \<times> error option" where
  "processMarkdown S E w element =
     process_anchors S E (querySelectorAll_a element)
       \<lparr>pworld = w, fragment = element, replaced = []\<rparr>"

text \<open>The node a path leads to, if it leads to one.\<close>

fun node_at :: "node \<Rightarrow> path \<Rightarrow> node option" where
  "node_at n [] = Some n"
| "node_at (Text s) (i # p) = None"
| "node_at (Elem t as cs) (i # p) = (if i < length cs then node_at (cs ! i) p else None)"

text \<open>
  The thumbnail images of a node: the \<open>img\<close> elements of class \<open>video-thumbnail\<close>
  among the node and what is below it.
\<close>

definition is_thumbnail :: "node \<Rightarrow> bool" where
  "is_thumbnail n =
     (case n of
        Elem t as cs \<Rightarrow> t = ''img'' \<and> map_of as ''class'' = Some ''video-thumbnail''
      | Text s \<Rightarrow> False)"

definition thumbnails :: "node \<Rightarrow> node list" where
  "thumbnails n = filter is_thumbnail (n # map snd (descendants n))"

section \<open>The pass over the markup of a fragment\<close>

text \<open>
  The variant without the channel icon works on \<open>innerHTML\<close>, the markup of the fragment
  as a string; reading it after it was assigned is taken to give back what was assigned,
  which is so for markup the parser does not rearrange. \<open>outerHTML\<close> writes a node as markup: an attribute value escapes the
  ampersand, the no-break space, the double quote and the angle brackets, a text escapes
  the ampersand, the no-break space and the angle brackets, an element without content
  model such as \<open>img\<close> has no end tag.
\<close>

definition escape_char :: "bool \<Rightarrow> char \<Rightarrow> string" where
  "escape_char attr c =
     (if c = CHR ''&'' then ''&amp;''
      else if c = CHR 0xA0 then ''&nbsp;''
      else if c = CHR ''<'' then ''&lt;''
      else if c = CHR ''>'' then ''&gt;''
      else if attr \<and> c = CHR 0x22 then ''&quot;''
      else [c])"

definition escape :: "bool \<Rightarrow> string \<Rightarrow> string" where
  "escape attr s = concat (map (escape_char attr) s)"

definition void_elements :: "string list" where
  "void_elements = [''area'', ''base'', ''basefont'', ''bgsound'', ''br'', ''col'', ''embed'',
     ''frame'', ''hr'', ''img'', ''input'', ''keygen'', ''link'', ''meta'', ''param'', ''source'',
     ''track'', ''wbr'']"

definition raw_text_elements :: "string list" where
  "raw_text_elements = [''style'', ''script'', ''xmp'', ''iframe'', ''noembed'', ''noframes'',
     ''plaintext'']"

definition quot :: string where
  "quot = [CHR 0x22]"

fun serialize :: "bool \<Rightarrow> node \<Rightarrow> string" where
  "serialize raw (Text s) = (if raw then s else escape False s)"
| "serialize raw (Elem t as cs) =
     ''<'' @ t @ concat (map (\<lambda>(k, v). '' '' @ k @ ''='' @ quot @ escape True v @ quot) as) @ ''>'' @
     (if t \<in> set void_elements then []
      else concat (map (serialize (t \<in> set raw_text_elements)) cs) @ ''</'' @ t @ ''>'')"

definition outerHTML :: "node \<Rightarrow> string" where
  "outerHTML n = serialize False n"

text \<open>
  \<open>s.match(r)\<close> with the global flag: the matches from left to right, each search
  starting where the last match ended (one character further after an empty match).
\<close>

function match_all :: "rx \<Rightarrow> string \<Rightarrow> string list" where
  "match_all r s =
     (case rx_exec r s of
        None \<Rightarrow> []
      | Some (p, m, t) \<Rightarrow>
          m # (if m = [] then (case t of [] \<Rightarrow> [] | c # t' \<Rightarrow> match_all r t')
               else match_all r t))"
  by pat_completeness auto
termination
proof (relation "measure (\<lambda>(r, s). length s)")
  have suf: "suffix t s" if "t \<in> set (rmatch r s)" for r t s
    using that
  proof (induction r arbitrary: s t)
    case (Seq a b)
    then obtain m where "m \<in> set (rmatch a s)" "t \<in> set (rmatch b m)" by auto
    with Seq.IH show ?case by (meson suffix_order.trans)
  qed (auto split: if_splits simp: suffix_drop)
  have parts: "s = p @ m @ t" if "rx_exec r s = Some (p, m, t)" for r s p m t
    using that
  proof (induction s arbitrary: p)
    case Nil
    then show ?case by (auto split: list.splits)
  next
    case (Cons c s)
    show ?case
    proof (cases "rmatch r (c # s)")
      case Nil
      with Cons.prems obtain p' where "rx_exec r s = Some (p', m, t)" "p = c # p'" by auto
      with Cons.IH show ?thesis by simp
    next
      case (Cons t' ts)
      then have "suffix t' (c # s)" using suf [of t' r "c # s"] by simp
      then obtain q where q: "c # s = q @ t'" by (auto simp: suffix_def)
      from Cons Cons.prems
      have "p = []" "m = take (length (c # s) - length t') (c # s)" "t = t'" by auto
      with q show ?thesis by simp
    qed
  qed
  show "wf (measure (\<lambda>(r, s). length s))" by simp
  show "((r, t'), (r, s)) \<in> measure (\<lambda>(r, s). length s)"
    if "rx_exec r s = Some x" "(p, y) = x" "(m, t) = y" "m = []" "t = c # t'"
    for r s x p y m t c t'
    using parts [of r s p m t] that by auto
  show "((r, t), (r, s)) \<in> measure (\<lambda>(r, s). length s)"
    if "rx_exec r s = Some x" "(p, y) = x" "(m, t) = y" "m \<noteq> []"
    for r s x p y m t
    using parts [of r s p m t] that by auto
qed

text \<open>
  \<open>s.replace(pattern, replacement)\<close> with a string pattern: the first occurrence of the
  pattern is replaced, and in the replacement \<^verbatim>\<open>$$\<close> stands for a dollar sign, \<^verbatim>\<open>$&\<close>
  for the matched text, \<^verbatim>\<open>$`\<close> for the text before it and \<^verbatim>\<open>$'\<close> for the text after it.
\<close>

fun find_sub :: "string \<Rightarrow> string \<Rightarrow> (string \<times> string) option" where
  "find_sub pat [] = (if pat = [] then Some ([], []) else None)"
| "find_sub pat (c # s) =
     (if prefix pat (c # s) then Some ([], drop (length pat) (c # s))
      else map_option (\<lambda>(b, a). (c # b, a)) (find_sub pat s))"

fun get_substitution :: "string \<Rightarrow> string \<Rightarrow> string \<Rightarrow> string \<Rightarrow> string" where
  "get_substitution m b a [] = []"
| "get_substitution m b a [c] = [c]"
| "get_substitution m b a (c # d # r) =
     (if c = CHR ''$'' \<and> d = CHR ''$'' then CHR ''$'' # get_substitution m b a r
      else if c = CHR ''$'' \<and> d = CHR ''&'' then m @ get_substitution m b a r
      else if c = CHR ''$'' \<and> d = CHR 0x60 then b @ get_substitution m b a r
      else if c = CHR ''$'' \<and> d = CHR 0x27 then a @ get_substitution m b a r
      else c # get_substitution m b a (d # r))"

definition string_replace :: "string \<Rightarrow> string \<Rightarrow> string \<Rightarrow> string" where
  "string_replace s pat replacement =
     (case find_sub pat s of
        None \<Rightarrow> s
      | Some (b, a) \<Rightarrow> b @ get_substitution pat b a replacement @ a)"

text \<open>
  The loop of \<open>processMarkdown\<close> of the variant without the channel icon, over the
  matches found at its start; the state is the world and the markup.
\<close>

fun process_matches ::
  "settings \<Rightarrow> env \<Rightarrow> string list \<Rightarrow> world \<times> string \<Rightarrow> (world \<times> string) \<times> error option" where
  "process_matches S E [] st = (st, None)"
| "process_matches S E (u # rest) (w, html) =
     (case fetchVideoMetadata_main E w u of
        (w1, Inl e) \<Rightarrow> ((w1, html), Some e)
      | (w1, Inr None) \<Rightarrow> process_matches S E rest (w1, html)
      | (w1, Inr (Some metadata)) \<Rightarrow>
          (case createPrettyLink_main S metadata of
             Inl e \<Rightarrow> ((w1, html), Some e)
           | Inr prettyLink \<Rightarrow>
               process_matches S E rest (w1, string_replace html u (outerHTML prettyLink))))"

definition processMarkdown_main ::
  "settings \<Rightarrow> env \<Rightarrow> world \<Rightarrow> string \<Rightarrow> (world \<times> string) \<times> error option" where
  "processMarkdown_main S E w innerHTML =
     process_matches S E (match_all youtubeRegex innerHTML) (w, innerHTML)"

declare match_all.simps [simp del]

section \<open>How a server reads the query of an address\<close>

text \<open>The characters that structure a query.\<close>

definition reserved :: "char \<Rightarrow> bool" where
  "reserved c = (c = CHR ''&'' \<or> c = CHR ''#'' \<or> c = CHR ''?'' \<or> c = CHR ''='')"

text \<open>
  The query of an address starts after the first question mark and ends before the
  first hash sign; ampersands separate its parameters, and in a parameter the first
  equals sign separates the name from the value. Values are left as they are written.
\<close>

fun split_on :: "char \<Rightarrow> string \<Rightarrow> string list" where
  "split_on c [] = [[]]"
| "split_on c (x # xs) =
     (if x = c then [] # split_on c xs
      else (case split_on c xs of [] \<Rightarrow> [[x]] | p # ps \<Rightarrow> (x # p) # ps))"

definition query_params :: "string \<Rightarrow> (string \<times> string) list" where
  "query_params address =
     (let no_fragment = takeWhile (\<lambda>c. c \<noteq> CHR ''#'') address;
          query = drop 1 (dropWhile (\<lambda>c. c \<noteq> CHR ''?'') no_fragment)
      in map (\<lambda>kv. (takeWhile (\<lambda>c. c \<noteq> CHR ''='') kv, drop 1 (dropWhile (\<lambda>c. c \<noteq> CHR ''='') kv)))
           (split_on CHR ''&'' query))"

definition query_param :: "string \<Rightarrow> string \<Rightarrow> string option" where
  "query_param name address = map_of (query_params address) name"

text \<open>
  Reading an encoded component back, as \<open>decodeURIComponent\<close> does: an escape of two
  hexadecimal digits is a byte, a byte below 128 is a character, and the bytes C2 and C3
  start the two-byte UTF-8 form of a code unit from U+0080 to U+00FF. Anything else
  after a percent sign is refused.
\<close>

definition hex_value :: "char \<Rightarrow> nat option" where
  "hex_value c =
     (let n = of_char c :: nat
      in if 48 \<le> n \<and> n \<le> 57 then Some (n - 48)
         else if 65 \<le> n \<and> n \<le> 70 then Some (n - 55)
         else if 97 \<le> n \<and> n \<le> 102 then Some (n - 87)
         else None)"

fun escaped_byte :: "string \<Rightarrow> (nat \<times> string) option" where
  "escaped_byte (p # h # l # rest) =
     (if p = CHR ''%'' then
        (case (hex_value h, hex_value l) of
           (Some a, Some b) \<Rightarrow> Some (16 * a + b, rest)
         | _ \<Rightarrow> None)
      else None)"
| "escaped_byte _ = None"

function decodeURIComponent :: "string \<Rightarrow> string option" where
  "decodeURIComponent [] = Some []"
| "decodeURIComponent (c # s) =
     (if c \<noteq> CHR ''%'' then map_option ((#) c) (decodeURIComponent s)
      else (case escaped_byte (c # s) of
              None \<Rightarrow> None
            | Some (b1, rest) \<Rightarrow>
                if b1 < 128 then map_option ((#) (char_of b1)) (decodeURIComponent rest)
                else if 194 \<le> b1 \<and> b1 \<le> 195 then
                  (case escaped_byte rest of
                     None \<Rightarrow> None
                   | Some (b2, rest') \<Rightarrow>
                       if 128 \<le> b2 \<and> b2 < 192
                       then map_option ((#) (char_of ((b1 - 192) * 64 + (b2 - 128))))
                              (decodeURIComponent rest')
                       else None)
                else None))"
  by pat_completeness auto
termination
proof (relation "measure length")
  have shorter: "length rest < length s" if "escaped_byte s = Some (b, rest)" for s b rest
    using that by (cases s rule: escaped_byte.cases) (auto split: if_splits option.splits)
  show "wf (measure length)" by simp
  show "(s, c # s) \<in> measure length" for c :: char and s by simp
  show "(rest, c # s) \<in> measure length"
    if "escaped_byte (c # s) = Some x" "(b1, rest) = x" for c s x b1 rest
    using shorter [of "c # s" b1 rest] that by auto
  show "(rest', c # s) \<in> measure length"
    if "escaped_byte (c # s) = Some x" "(b1, rest) = x" "escaped_byte rest = Some y" "(b2, rest') = y"
    for c s x b1 rest y b2 rest'
    using shorter [of "c # s" b1 rest] shorter [of rest b2 rest'] that by auto
qed

section \<open>Worlds and settings used as examples\<close>

definition world0 :: world where
  "world0 = \<lparr>requests = [], console = [], notices = [], persisted = None\<rparr>"

definition settings_with_key :: settings where
  "settings_with_key = \<lparr>showThumbnail = True, showChannelIcon = True, apiKey = ''k''\<rparr>"

text \<open>
  A network whose every answer is the body the embed service gives for an address it
  does not know, and settings with the channel icon switched off.
\<close>

definition env_error_body :: env where
  "env_error_body =
     \<lparr>net = (\<lambda>n q. Body (JObj [(''error'', JStr ''no matching providers found'')])),
      str_positive = (\<lambda>s. False)\<rparr>"

definition settings_plain :: settings where
  "settings_plain = \<lparr>showThumbnail = True, showChannelIcon = False, apiKey = ''''\<rparr>"

text \<open>
  A network on which all three services answer with a complete body, and one on which
  every answer is the error object a service gives for a missing key.
\<close>

definition good_embed_body :: jsval where
  "good_embed_body =
     JObj [(''title'', JStr ''A video''), (''author_name'', JStr ''An author''),
           (''author_url'', JStr ''https://www.youtube.com/@author''),
           (''thumbnail_url'', JStr ''https://i.ytimg.com/vi/a/hqdefault.jpg'')]"

definition env_good :: env where
  "env_good =
     \<lparr>net = (\<lambda>n q.
        if prefix ''https://noembed.com/'' q then Body good_embed_body
        else if prefix ''https://www.googleapis.com/youtube/v3/search'' q
        then Body (JObj [(''items'', JArr [JObj [(''snippet'', JObj [(''channelId'', JStr ''UC1'')])]])])
        else Body (JObj [(''items'', JArr [JObj [(''snippet'', JObj [(''thumbnails'',
               JObj [(''default'', JObj [(''url'', JStr ''https://yt3.ggpht.com/icon.jpg'')])])])]])])),
      str_positive = (\<lambda>s. False)\<rparr>"

definition env_forbidden :: env where
  "env_forbidden =
     \<lparr>net = (\<lambda>n q. Body (JObj [(''error'', JObj [(''code'', JNum 403)])])),
      str_positive = (\<lambda>s. False)\<rparr>"

text \<open>The metadata of a video for which the embed service knows no thumbnail.\<close>

definition metadata_no_thumbnail :: metadata where
  "metadata_no_thumbnail =
     \<lparr>title = JStr ''A video'', author_name = JStr ''An author'', thumbnail_url = JStr [],
      url = ''https://youtu.be/a'', channel_icon_url = JNull\<rparr>"

text \<open>
  A network whose first answer is a failure, and one on which the title of every video
  quotes the address \<open>https://youtu.be/a\<close>.
\<close>

definition env_first_fails :: env where
  "env_first_fails =
     \<lparr>net = (\<lambda>n q. if n = 0 then Failed else Body good_embed_body),
      str_positive = (\<lambda>s. False)\<rparr>"

definition env_mirror :: env where
  "env_mirror =
     \<lparr>net = (\<lambda>n q. Body (JObj [(''title'', JStr ''Mirror of https://youtu.be/a''),
                                  (''author_name'', JStr ''An author''),
                                  (''thumbnail_url'', JStr ''https://i.ytimg.com/vi/a/hqdefault.jpg'')])),
      str_positive = (\<lambda>s. False)\<rparr>"

text \<open>
  The replacements the two variants build for the complete body, the replacement the
  variant without the channel icon builds for the quoting title, a fragment with one
  plain link, and that fragment after a pass.
\<close>

definition link_main :: node where
  "link_main =
     Elem ''div'' [(''class'', ''video-metadata-container'')]
       [Elem ''img'' [(''class'', ''video-thumbnail''),
                      (''src'', ''https://i.ytimg.com/vi/a/hqdefault.jpg'')] [],
        Elem ''div'' [(''class'', ''video-title'')] [Text ''A video''],
        Elem ''div'' [(''class'', ''video-author'')] [Text ''by An author'']]"

definition link_mirror :: node where
  "link_mirror =
     Elem ''div'' [(''class'', ''video-metadata-container'')]
       [Elem ''img'' [(''class'', ''video-thumbnail''),
                      (''src'', ''https://i.ytimg.com/vi/a/hqdefault.jpg'')] [],
        Elem ''div'' [(''class'', ''video-title'')] [Text ''Mirror of https://youtu.be/a''],
        Elem ''div'' [(''class'', ''video-author'')] [Text ''by An author'']]"

definition fragment0 :: node where
  "fragment0 = Elem ''p'' [] [Elem ''a'' [(''href'', ''https://youtu.be/a'')] [Text ''https://youtu.be/a'']]"

definition link_anchor :: node where
  "link_anchor =
     Elem ''a''
       [(''class'', ''video-metadata-container''), (''href'', ''https://youtu.be/a''),
        (''target'', ''_blank''), (''rel'', ''noopener noreferrer'')]
       [Elem ''img'' [(''class'', ''video-thumbnail''),
                      (''src'', ''https://i.ytimg.com/vi/a/hqdefault.jpg'')] [],
        Elem ''div'' [(''class'', ''banner'')]
         [Elem ''div'' [(''class'', ''video-text-container'')]
           [Elem ''strong'' [] [Text ''A video''],
            Elem ''span'' [] [Text ''An author'']]]]"

definition fragment1 :: node where
  "fragment1 = Elem ''p'' [] [link_anchor]"

section \<open>Steps that may throw\<close>

lemma bind_e_simps [simp]:
  "bind_e (Inl e) f = Inl e" "bind_e (Inr v) f = f v"
  by (simp_all add: bind_e_def)

lemma bind_w_simps [simp]:
  "bind_w (w, Inl e) g = (w, Inl e)" "bind_w (w, Inr v) g = g v w"
  by (simp_all add: bind_w_def)

lemma bind_e_Inr_iff: "bind_e m f = Inr v \<longleftrightarrow> (\<exists>x. m = Inr x \<and> f x = Inr v)"
  by (cases m) auto

lemma truthy_get_prop: "truthy d \<Longrightarrow> \<exists>v. get_prop d k = Inr v"
  by (cases d) auto

lemma fetchChannelIcon_total: "\<exists>v. snd (fetchChannelIcon S E w a) = Inr v"
  unfolding fetchChannelIcon_def
  by (auto split: prod.splits sum.splits option.splits)

lemma fetch_json_cases:
  "fetch_json E w q =
     (w\<lparr>requests := requests w @ [q]\<rparr>,
      case net E (length (requests w)) q of
        Failed \<Rightarrow> Inl NetworkFailure | Malformed \<Rightarrow> Inl SyntaxError | Body v \<Rightarrow> Inr v)"
  by (simp add: fetch_json_def)

lemma getChannelIdFromUrl_string:
  "getChannelIdFromUrl S E w (JStr ref) =
     (let w1 = w\<lparr>requests := requests w @ [search_url ref (apiKey S)]\<rparr>
      in case net E (length (requests w)) (search_url ref (apiKey S)) of
           Failed \<Rightarrow> (console_error ''Error fetching channel ID:'' NetworkFailure w1, Inr JNull)
         | Malformed \<Rightarrow> (console_error ''Error fetching channel ID:'' SyntaxError w1, Inr JNull)
         | Body d \<Rightarrow>
             (case has_items E d of
                Inl e \<Rightarrow> (console_error ''Error fetching channel ID:'' e w1, Inr JNull)
              | Inr False \<Rightarrow> (w1, Inr JNull)
              | Inr True \<Rightarrow>
                  (case channel_id_of d of
                     Inl e \<Rightarrow> (console_error ''Error fetching channel ID:'' e w1, Inr JNull)
                   | Inr c \<Rightarrow> (w1, Inr c))))"
  by (simp add: getChannelIdFromUrl_def fetch_json_cases Let_def
      split: fetch_result.splits sum.splits bool.splits)

lemma fetchChannelIcon_after_lookup:
  assumes "getChannelIdFromUrl S E w a = (w1, Inr c)" "to_string c = Inr cid"
  shows "fetchChannelIcon S E w a =
     (let w2 = w1\<lparr>requests := requests w1 @ [channels_url cid (apiKey S)]\<rparr>
      in case net E (length (requests w1)) (channels_url cid (apiKey S)) of
           Failed \<Rightarrow> (console_error ''Error fetching channel icon:'' NetworkFailure w2, Inr JNull)
         | Malformed \<Rightarrow> (console_error ''Error fetching channel icon:'' SyntaxError w2, Inr JNull)
         | Body d \<Rightarrow>
             (case has_items E d of
                Inl e \<Rightarrow> (console_error ''Error fetching channel icon:'' e w2, Inr JNull)
              | Inr False \<Rightarrow> (w2, Inr JNull)
              | Inr True \<Rightarrow>
                  (case icon_url_of d of
                     Inl e \<Rightarrow> (console_error ''Error fetching channel icon:'' e w2, Inr JNull)
                   | Inr v \<Rightarrow> (w2, Inr v))))"
  using assms
  by (simp add: fetchChannelIcon_def fetch_json_cases Let_def
      split: fetch_result.splits sum.splits bool.splits)


lemma console_error_simps [simp]:
  "requests (console_error msg e w) = requests w"
  "console (console_error msg e w) = console w @ [(msg, e)]"
  by (simp_all add: console_error_def)

lemma getChannelIdFromUrl_effects:
  "to_string a = Inl e \<Longrightarrow> getChannelIdFromUrl S E w a = (w, Inl e)"
  "to_string a = Inr c \<Longrightarrow>
     requests (fst (getChannelIdFromUrl S E w a)) = requests w @ [search_url c (apiKey S)] \<and>
     (\<exists>v. snd (getChannelIdFromUrl S E w a) = Inr v)"
  by (auto simp: getChannelIdFromUrl_def fetch_json_cases
      split: fetch_result.splits sum.splits bool.splits)

lemma fetchChannelIcon_leaves_trace:
  "requests (fst (fetchChannelIcon S E w a)) \<noteq> requests w \<or>
   console (fst (fetchChannelIcon S E w a)) \<noteq> console w"
proof (cases "to_string a")
  case (Inl e)
  then have "fetchChannelIcon S E w a = (console_error ''Error fetching channel icon:'' e w, Inr JNull)"
    by (simp add: fetchChannelIcon_def getChannelIdFromUrl_effects(1))
  then show ?thesis by simp
next
  case (Inr c)
  obtain w1 v where g: "getChannelIdFromUrl S E w a = (w1, Inr v)"
    and r: "requests w1 = requests w @ [search_url c (apiKey S)]"
    using getChannelIdFromUrl_effects(2) [OF Inr, of S E w]
    by (cases "getChannelIdFromUrl S E w a") auto
  have "\<exists>more. requests (fst (fetchChannelIcon S E w a)) = requests w1 @ more"
    using g by (auto simp: fetchChannelIcon_def fetch_json_cases
        split: fetch_result.splits sum.splits bool.splits option.splits)
  with r show ?thesis by auto
qed

lemma fetchChannelIcon_requests_extend:
  "\<exists>more. requests (fst (fetchChannelIcon S E w a)) = requests w @ more"
proof (cases "to_string a")
  case (Inl e)
  then have "fetchChannelIcon S E w a = (console_error ''Error fetching channel icon:'' e w, Inr JNull)"
    by (simp add: fetchChannelIcon_def getChannelIdFromUrl_effects(1))
  then show ?thesis by simp
next
  case (Inr c)
  obtain w1 v where g: "getChannelIdFromUrl S E w a = (w1, Inr v)"
    and r: "requests w1 = requests w @ [search_url c (apiKey S)]"
    using getChannelIdFromUrl_effects(2) [OF Inr, of S E w]
    by (cases "getChannelIdFromUrl S E w a") auto
  have "\<exists>more. requests (fst (fetchChannelIcon S E w a)) = requests w1 @ more"
    using g by (auto simp: fetchChannelIcon_def fetch_json_cases
        split: fetch_result.splits sum.splits bool.splits option.splits)
  with r show ?thesis by auto
qed

lemma fetchVideoMetadata_first_request:
  "\<exists>more. requests (fst (fetchVideoMetadata S E w u)) = requests w @ embed_url u # more"
proof -
  let ?w1 = "w\<lparr>requests := requests w @ [embed_url u]\<rparr>"
  have icon: "\<exists>more. requests (fst (fetchChannelIcon S E ?w1 a)) = requests w @ embed_url u # more" for a
    using fetchChannelIcon_requests_extend [of S E ?w1 a] by auto
  show ?thesis
  proof (cases "net E (length (requests w)) (embed_url u)")
    case (Body d)
    show ?thesis
    proof (cases "truthy d \<and> showChannelIcon S")
      case True
      then obtain au where au: "get_prop d ''author_url'' = Inr au"
        using truthy_get_prop by blast
      obtain w2 r where f: "fetchChannelIcon S E ?w1 au = (w2, r)"
        by (cases "fetchChannelIcon S E ?w1 au") auto
      with icon [of au] obtain more where m: "requests w2 = requests w @ embed_url u # more" by auto
      obtain t a th where p: "get_prop d ''title'' = Inr t" "get_prop d ''author_name'' = Inr a"
        "get_prop d ''thumbnail_url'' = Inr th"
        using truthy_get_prop True by metis
      show ?thesis
        using True Body au f m p
        by (cases r) (simp_all add: fetchVideoMetadata_def fetch_json_cases)
    next
      case False
      with Body show ?thesis
        by (auto simp: fetchVideoMetadata_def fetch_json_cases split: sum.splits)
    qed
  qed (auto simp: fetchVideoMetadata_def fetch_json_cases)
qed

section \<open>Saving the settings: what is proved\<close>

text \<open>
  C4. \<open>saveSettings\<close> refuses to save exactly when the channel icon is switched on and
  the key is empty. A refused save leaves the persisted settings as they were and shows
  one notice; every other save hands the settings to \<open>saveData\<close> and shows nothing.
\<close>

theorem saveSettings_rejected_iff:
  "(snd (saveSettings s w) = False \<longleftrightarrow> showChannelIcon s \<and> apiKey s = []) \<and>
   (showChannelIcon s \<and> apiKey s = [] \<longrightarrow>
      persisted (fst (saveSettings s w)) = persisted w \<and>
      notices (fst (saveSettings s w)) =
        notices w @ [''API Key is required when Channel Icon is enabled.'']) \<and>
   (\<not> (showChannelIcon s \<and> apiKey s = []) \<longrightarrow>
      persisted (fst (saveSettings s w)) = Some s \<and>
      notices (fst (saveSettings s w)) = notices w)"
  by (simp add: saveSettings_def)

theorem saveSettings_rejected_iff_witness:
  "(showChannelIcon DEFAULT_SETTINGS \<and> apiKey DEFAULT_SETTINGS = []) \<and>
   snd (saveSettings DEFAULT_SETTINGS (world0\<lparr>persisted := Some settings_with_key\<rparr>)) = False \<and>
   persisted (fst (saveSettings DEFAULT_SETTINGS (world0\<lparr>persisted := Some settings_with_key\<rparr>)))
     = Some settings_with_key \<and>
   \<not> (showChannelIcon settings_with_key \<and> apiKey settings_with_key = []) \<and>
   snd (saveSettings settings_with_key world0) = True \<and>
   persisted (fst (saveSettings settings_with_key world0)) = Some settings_with_key"
  using saveSettings_rejected_iff [of DEFAULT_SETTINGS "world0\<lparr>persisted := Some settings_with_key\<rparr>"]
    saveSettings_rejected_iff [of settings_with_key world0]
  by (simp add: DEFAULT_SETTINGS_def settings_with_key_def world0_def)

section \<open>Recognising a video address: what is proved\<close>

text \<open>The matcher finds exactly the strings of the pattern's language.\<close>

lemma rmatch_NonSpaces_iff:
  "t \<in> set (rmatch NonSpaces s) \<longleftrightarrow> (\<exists>m. m \<noteq> [] \<and> (\<forall>c \<in> set m. \<not> is_space c) \<and> s = m @ t)"
proof
  let ?P = "\<lambda>c. \<not> is_space c"
  assume "t \<in> set (rmatch NonSpaces s)"
  then obtain j where j: "1 \<le> j" "j \<le> length (takeWhile ?P s)" "t = drop j s" by auto
  have "take j s = take j (takeWhile ?P s)"
    using j(2) by (metis append_eq_conv_conj takeWhile_dropWhile_id take_all_iff take_append
        diff_is_0_eq take_0 append_Nil2)
  then have "\<forall>c \<in> set (take j s). ?P c"
    by (metis in_set_takeD set_takeWhileD)
  moreover have "take j s \<noteq> []" using j by (auto simp: take_eq_Nil)
  moreover have "s = take j s @ t" using j(3) by simp
  ultimately show "\<exists>m. m \<noteq> [] \<and> (\<forall>c \<in> set m. \<not> is_space c) \<and> s = m @ t" by blast
next
  let ?P = "\<lambda>c. \<not> is_space c"
  assume "\<exists>m. m \<noteq> [] \<and> (\<forall>c \<in> set m. \<not> is_space c) \<and> s = m @ t"
  then obtain m where m: "m \<noteq> []" "\<forall>c \<in> set m. ?P c" "s = m @ t" by blast
  then have "takeWhile ?P s = m @ takeWhile ?P t" by (simp add: takeWhile_append2)
  then have "length m \<le> length (takeWhile ?P s)" by simp
  moreover have "1 \<le> length m" using m(1) by (cases m) auto
  moreover have "t = drop (length m) s" using m(3) by simp
  ultimately have "length m \<in> set (rev [1 ..< Suc (length (takeWhile ?P s))])"
    and "t = (\<lambda>j. drop j s) (length m)" by auto
  then show "t \<in> set (rmatch NonSpaces s)" unfolding rmatch.simps set_map by (rule rev_image_eqI)
qed

lemma rmatch_iff: "t \<in> set (rmatch r s) \<longleftrightarrow> (\<exists>m \<in> lang r. s = m @ t)"
proof (induction r arbitrary: s t)
  case (Lit l)
  show ?case by (auto simp: prefix_def)
next
  case NonSpaces
  show ?case using rmatch_NonSpaces_iff [of t s] by auto
next
  case (Opt r)
  then show ?case by auto
next
  case (Alt a b)
  then show ?case by auto
next
  case (Seq a b)
  have "t \<in> set (rmatch (Seq a b) s) \<longleftrightarrow> (\<exists>u \<in> set (rmatch a s). t \<in> set (rmatch b u))" by auto
  also have "\<dots> \<longleftrightarrow> (\<exists>u. (\<exists>m \<in> lang a. s = m @ u) \<and> (\<exists>n \<in> lang b. u = n @ t))"
    using Seq.IH by blast
  also have "\<dots> \<longleftrightarrow> (\<exists>m \<in> lang (Seq a b). s = m @ t)" by force
  finally show ?case .
qed

lemma rx_exec_None_iff: "rx_exec r s = None \<longleftrightarrow> (\<forall>p t. s = p @ t \<longrightarrow> rmatch r t = [])"
proof (induction s)
  case Nil
  then show ?case by (auto split: list.splits)
next
  case (Cons c s)
  show ?case
  proof (cases "rmatch r (c # s)")
    case Nil
    have "(\<forall>p t. c # s = p @ t \<longrightarrow> rmatch r t = []) \<longleftrightarrow> (\<forall>p t. s = p @ t \<longrightarrow> rmatch r t = [])"
      using Nil by (auto simp: Cons_eq_append_conv)
    with Nil Cons.IH show ?thesis by simp
  next
    case (Cons t' ts)
    then have "c # s = [] @ (c # s) \<and> rmatch r (c # s) \<noteq> []" by simp
    then have "\<not> (\<forall>p t. c # s = p @ t \<longrightarrow> rmatch r t = [])" by blast
    with Cons show ?thesis by simp
  qed
qed

lemma rx_test_iff: "rx_test r s \<longleftrightarrow> (\<exists>p m t. s = p @ m @ t \<and> m \<in> lang r)"
proof -
  have "rx_test r s \<longleftrightarrow> (\<exists>p t. s = p @ t \<and> rmatch r t \<noteq> [])"
    by (simp add: rx_test_def rx_exec_None_iff)
  also have "\<dots> \<longleftrightarrow> (\<exists>p t u. s = p @ t \<and> u \<in> set (rmatch r t))"
    by (metis all_not_in_conv set_empty)
  also have "\<dots> \<longleftrightarrow> (\<exists>p m t. s = p @ m @ t \<and> m \<in> lang r)"
    unfolding rmatch_iff by blast
  finally show ?thesis .
qed

text \<open>
  C2. \<open>isYouTubeUrl\<close> is total, and it answers true exactly when the string holds,
  at any position, \<open>http\<close> or \<open>https\<close>, then \<open>://\<close>, an optional \<open>www.\<close>, one of the two
  hosts, a slash and one character that is not white space. The host is delimited on both
  sides, so a host that merely contains the domain does not match by itself; but the
  search is not tied to the start of the string, so a string that contains a recognised
  address anywhere is accepted.
\<close>

theorem isYouTubeUrl_iff_contains:
  "isYouTubeUrl u \<longleftrightarrow>
     (\<exists>pre s w h c rest.
        u = pre @ ''http'' @ s @ ''://'' @ w @ h @ ''/'' @ c # rest \<and>
        (s = [] \<or> s = ''s'') \<and> (w = [] \<or> w = ''www.'') \<and>
        (h = ''youtube.com'' \<or> h = ''youtu.be'') \<and> \<not> is_space c)"
  (is "?L \<longleftrightarrow> ?R")
proof
  assume ?L
  then obtain p m t where pm: "u = p @ m @ t" "m \<in> lang youtubeRegex"
    unfolding isYouTubeUrl_def rx_test_iff by blast
  from pm(2) obtain s w h n where
    m: "m = ''http'' @ s @ ''://'' @ w @ h @ ''/'' @ n"
    and s: "s = [] \<or> s = ''s''" and w: "w = [] \<or> w = ''www.''"
    and h: "h = ''youtube.com'' \<or> h = ''youtu.be''"
    and n: "n \<noteq> []" "\<forall>c \<in> set n. \<not> is_space c"
    unfolding youtubeRegex_def by (fastforce simp del: append.simps)
  from n obtain c n' where "n = c # n'" "\<not> is_space c" by (cases n) auto
  with pm(1) m have "u = p @ ''http'' @ s @ ''://'' @ w @ h @ ''/'' @ c # (n' @ t)" by simp
  with s w h \<open>\<not> is_space c\<close> show ?R by blast
next
  assume ?R
  then obtain pre s w h c rest where
    u: "u = pre @ ''http'' @ s @ ''://'' @ w @ h @ ''/'' @ c # rest"
    and s: "s = [] \<or> s = ''s''" and w: "w = [] \<or> w = ''www.''"
    and h: "h = ''youtube.com'' \<or> h = ''youtu.be''" and c: "\<not> is_space c" by blast
  have "''http'' @ s @ ''://'' @ w @ h @ ''/'' @ [c] \<in> lang youtubeRegex"
  proof -
    have 1: "''http'' \<in> lang (Lit ''http'')" by simp
    have 2: "s \<in> lang (Opt (Lit ''s''))" using s by auto
    have 3: "''://'' \<in> lang (Lit ''://'')" by simp
    have 4: "w \<in> lang (Opt (Lit ''www.''))" using w by auto
    have 5: "h \<in> lang (Alt (Lit ''youtube.com'') (Lit ''youtu.be''))" using h by auto
    have 6: "''/'' \<in> lang (Lit ''/'')" by simp
    have 7: "[c] \<in> lang NonSpaces" using c by simp
    have seq: "\<And>a b m n. m \<in> lang a \<Longrightarrow> n \<in> lang b \<Longrightarrow> m @ n \<in> lang (Seq a b)" by auto
    show ?thesis unfolding youtubeRegex_def
      by (intro seq 1 2 3 4 5 6 7)
  qed
  moreover have "u = pre @ (''http'' @ s @ ''://'' @ w @ h @ ''/'' @ [c]) @ rest" using u by simp
  ultimately show ?L unfolding isYouTubeUrl_def rx_test_iff by blast
qed


theorem isYouTubeUrl_iff_contains_witness:
  "isYouTubeUrl ''https://www.youtube.com/watch?v=a''"
proof -
  have "\<exists>pre s w h c rest.
          ''https://www.youtube.com/watch?v=a'' = pre @ ''http'' @ s @ ''://'' @ w @ h @ ''/'' @ c # rest \<and>
          (s = [] \<or> s = ''s'') \<and> (w = [] \<or> w = ''www.'') \<and>
          (h = ''youtube.com'' \<or> h = ''youtu.be'') \<and> \<not> is_space c"
    by (rule exI [of _ "[]"], rule exI [of _ "''s''"], rule exI [of _ "''www.''"],
        rule exI [of _ "''youtube.com''"], rule exI [of _ "CHR ''w''"],
        rule exI [of _ "''atch?v=a''"]) (simp add: is_space_def)
  then show ?thesis by (rule iffD2 [OF isYouTubeUrl_iff_contains])
qed

text \<open>
  The pattern does not match at the start of this string, whose own host is
  \<open>example.org\<close>, yet the string is accepted for the address it carries in its query.
\<close>

theorem isYouTubeUrl_embedded_counterexample:
  "isYouTubeUrl ''https://example.org/?next=http://youtu.be/a'' \<and>
   rmatch youtubeRegex ''https://example.org/?next=http://youtu.be/a'' = []"
  by (simp add: isYouTubeUrl_def rx_test_def youtubeRegex_def is_space_def)

text \<open>Hosts that contain a recognised domain without being one are rejected.\<close>

lemma isYouTubeUrl_partial_host_examples:
  "\<not> isYouTubeUrl ''https://notyoutube.com/watch?v=a''"
  "\<not> isYouTubeUrl ''https://youtube.com.evil.org/watch?v=a''"
  "\<not> isYouTubeUrl ''ftp://youtube.com/watch?v=a''"
  "\<not> isYouTubeUrl ''https://youtube.com/''"
  by (simp_all add: isYouTubeUrl_def rx_test_def youtubeRegex_def is_space_def)

section \<open>Resolving the metadata: what is proved\<close>

text \<open>
  C1. In both variants \<open>fetchVideoMetadata\<close> never throws, and it returns \<open>null\<close>
  exactly when the request fails, the body is not JSON, or the parsed body is falsy. For
  every other body it returns a record whose \<open>title\<close>, \<open>author_name\<close> and \<open>thumbnail_url\<close>
  are what the body holds under these names, which is \<open>undefined\<close> for a name the body
  lacks: the fields are copied without being checked.
\<close>

theorem fetchVideoMetadata_absent_iff:
  "(\<exists>v. snd (fetchVideoMetadata S E w u) = Inr v) \<and>
   (snd (fetchVideoMetadata S E w u) = Inr None \<longleftrightarrow>
      \<not> (\<exists>d. net E (length (requests w)) (embed_url u) = Body d \<and> truthy d)) \<and>
   (\<forall>d. net E (length (requests w)) (embed_url u) = Body d \<and> truthy d \<longrightarrow>
      (\<exists>m. snd (fetchVideoMetadata S E w u) = Inr (Some m) \<and>
           get_prop d ''title'' = Inr (title m) \<and>
           get_prop d ''author_name'' = Inr (author_name m) \<and>
           get_prop d ''thumbnail_url'' = Inr (thumbnail_url m) \<and> url m = u)) \<and>
   (\<exists>v. snd (fetchVideoMetadata_main E w u) = Inr v) \<and>
   (snd (fetchVideoMetadata_main E w u) = Inr None \<longleftrightarrow>
      \<not> (\<exists>d. net E (length (requests w)) (embed_url u) = Body d \<and> truthy d)) \<and>
   (\<forall>d. net E (length (requests w)) (embed_url u) = Body d \<and> truthy d \<longrightarrow>
      (\<exists>m. snd (fetchVideoMetadata_main E w u) = Inr (Some m) \<and>
           get_prop d ''title'' = Inr (title m) \<and>
           get_prop d ''author_name'' = Inr (author_name m) \<and>
           get_prop d ''thumbnail_url'' = Inr (thumbnail_url m)))"
proof -
  let ?a = "net E (length (requests w)) (embed_url u)"
  let ?w1 = "w\<lparr>requests := requests w @ [embed_url u]\<rparr>"
  have fail: "snd (fetchVideoMetadata S E w u) = Inr None \<and> snd (fetchVideoMetadata_main E w u) = Inr None"
    if "\<not> (\<exists>d. ?a = Body d \<and> truthy d)"
    using that
    by (cases ?a) (auto simp: fetchVideoMetadata_def fetchVideoMetadata_main_def fetch_json_cases)
  have ok: "(\<exists>m. snd (fetchVideoMetadata S E w u) = Inr (Some m) \<and>
           get_prop d ''title'' = Inr (title m) \<and>
           get_prop d ''author_name'' = Inr (author_name m) \<and>
           get_prop d ''thumbnail_url'' = Inr (thumbnail_url m) \<and> url m = u) \<and>
        (\<exists>m. snd (fetchVideoMetadata_main E w u) = Inr (Some m) \<and>
           get_prop d ''title'' = Inr (title m) \<and>
           get_prop d ''author_name'' = Inr (author_name m) \<and>
           get_prop d ''thumbnail_url'' = Inr (thumbnail_url m))"
    if d: "?a = Body d" "truthy d" for d
  proof -
    obtain t a th au where p: "get_prop d ''title'' = Inr t" "get_prop d ''author_name'' = Inr a"
      "get_prop d ''thumbnail_url'' = Inr th" "get_prop d ''author_url'' = Inr au"
      using truthy_get_prop [OF d(2)] by metis
    obtain w2 v where icon: "fetchChannelIcon S E ?w1 au = (w2, Inr v)"
      using fetchChannelIcon_total [of S E ?w1 au] by (cases "fetchChannelIcon S E ?w1 au") auto
    show ?thesis
      using d p icon
      by (auto simp: fetchVideoMetadata_def fetchVideoMetadata_main_def fetch_json_cases)
  qed
  have tot: "\<exists>v. snd (fetchVideoMetadata S E w u) = Inr v" "\<exists>v. snd (fetchVideoMetadata_main E w u) = Inr v"
    using fail ok by (cases "\<exists>d. ?a = Body d \<and> truthy d"; blast)+
  have iff: "snd (fetchVideoMetadata S E w u) = Inr None \<longleftrightarrow> \<not> (\<exists>d. ?a = Body d \<and> truthy d)"
    "snd (fetchVideoMetadata_main E w u) = Inr None \<longleftrightarrow> \<not> (\<exists>d. ?a = Body d \<and> truthy d)"
    using fail ok by (cases "\<exists>d. ?a = Body d \<and> truthy d"; fastforce)+
  show ?thesis
    using tot iff ok by blast
qed

theorem fetchVideoMetadata_absent_iff_witness:
  "net env_error_body (length (requests world0)) (embed_url ''https://youtu.be/a'')
     = Body (JObj [(''error'', JStr ''no matching providers found'')]) \<and>
   truthy (JObj [(''error'', JStr ''no matching providers found'')]) \<and>
   snd (fetchVideoMetadata settings_plain env_error_body world0 ''https://youtu.be/a'') \<noteq> Inr None"
  using fetchVideoMetadata_absent_iff [of settings_plain env_error_body world0 "''https://youtu.be/a''"]
  by (simp add: env_error_body_def)

text \<open>
  The embed service answers an address it does not know with an object that only holds
  an error message. The record returned for it has no title, author or thumbnail.
\<close>

theorem fetchVideoMetadata_partial_counterexample:
  "snd (fetchVideoMetadata settings_plain env_error_body world0 ''https://youtu.be/a'') =
     Inr (Some \<lparr>title = JUndefined, author_name = JUndefined, thumbnail_url = JUndefined,
                 url = ''https://youtu.be/a'', channel_icon_url = JNull\<rparr>)"
  by (simp add: fetchVideoMetadata_def fetch_json_cases env_error_body_def settings_plain_def
      world0_def own_prop_def)

text \<open>
  C5. With the channel icon switched off, \<open>fetchVideoMetadata\<close> sends one request, the
  one to the embed service, writes nothing to the console but the failure of that
  request, gives \<open>null\<close> as the icon of any record it returns, and does all this
  whatever the key is. A call of \<open>fetchChannelIcon\<close> always sends a request or writes to
  the console, so none took place.
\<close>

theorem fetchVideoMetadata_icon_gated:
  "showChannelIcon S = False \<Longrightarrow>
     requests (fst (fetchVideoMetadata S E w u)) = requests w @ [embed_url u] \<and>
     (console (fst (fetchVideoMetadata S E w u)) = console w \<or>
      console (fst (fetchVideoMetadata S E w u)) =
        console w @ [(''Error fetching video metadata:'', NetworkFailure)] \<or>
      console (fst (fetchVideoMetadata S E w u)) =
        console w @ [(''Error fetching video metadata:'', SyntaxError)]) \<and>
     (\<forall>m. snd (fetchVideoMetadata S E w u) = Inr (Some m) \<longrightarrow> channel_icon_url m = JNull) \<and>
     fetchVideoMetadata (S\<lparr>apiKey := k\<rparr>) E w u = fetchVideoMetadata S E w u \<and>
     (\<forall>w' a. requests (fst (fetchChannelIcon S E w' a)) \<noteq> requests w' \<or>
             console (fst (fetchChannelIcon S E w' a)) \<noteq> console w')"
proof -
  assume off: "showChannelIcon S = False"
  have truthy_ok: "\<exists>t a th. get_prop d ''title'' = Inr t \<and> get_prop d ''author_name'' = Inr a \<and>
      get_prop d ''thumbnail_url'' = Inr th" if "truthy d" for d
    using that by (cases d) auto
  have unfold: "fetchVideoMetadata S' E w u =
     (case net E (length (requests w)) (embed_url u) of
        Failed \<Rightarrow> (console_error ''Error fetching video metadata:'' NetworkFailure
                     (w\<lparr>requests := requests w @ [embed_url u]\<rparr>), Inr None)
      | Malformed \<Rightarrow> (console_error ''Error fetching video metadata:'' SyntaxError
                     (w\<lparr>requests := requests w @ [embed_url u]\<rparr>), Inr None)
      | Body d \<Rightarrow>
          (w\<lparr>requests := requests w @ [embed_url u]\<rparr>,
           if truthy d
           then Inr (Some \<lparr>title = projr (get_prop d ''title''),
                           author_name = projr (get_prop d ''author_name''),
                           thumbnail_url = projr (get_prop d ''thumbnail_url''),
                           url = u, channel_icon_url = JNull\<rparr>)
           else Inr None))"
    if "showChannelIcon S' = False" for S'
    using that truthy_ok
    by (fastforce simp: fetchVideoMetadata_def fetch_json_cases split: fetch_result.splits)
  have 1: "requests (fst (fetchVideoMetadata S E w u)) = requests w @ [embed_url u]"
    by (simp add: unfold [OF off] split: fetch_result.splits)
  have 2: "console (fst (fetchVideoMetadata S E w u)) = console w \<or>
      console (fst (fetchVideoMetadata S E w u)) =
        console w @ [(''Error fetching video metadata:'', NetworkFailure)] \<or>
      console (fst (fetchVideoMetadata S E w u)) =
        console w @ [(''Error fetching video metadata:'', SyntaxError)]"
    by (simp add: unfold [OF off] split: fetch_result.splits)
  have 3: "\<forall>m. snd (fetchVideoMetadata S E w u) = Inr (Some m) \<longrightarrow> channel_icon_url m = JNull"
    by (auto simp: unfold [OF off] split: fetch_result.splits if_splits)
  have 4: "fetchVideoMetadata (S\<lparr>apiKey := k\<rparr>) E w u = fetchVideoMetadata S E w u"
    using off by (simp add: unfold)
  show ?thesis using 1 2 3 4 fetchChannelIcon_leaves_trace by blast
qed

theorem fetchVideoMetadata_icon_gated_witness:
  "showChannelIcon settings_plain = False \<and>
   requests (fst (fetchVideoMetadata settings_plain env_good world0 ''https://youtu.be/a'')) =
     [embed_url ''https://youtu.be/a''] \<and>
   console (fst (fetchVideoMetadata settings_plain env_good world0 ''https://youtu.be/a'')) = [] \<and>
   fetchVideoMetadata (settings_plain\<lparr>apiKey := ''k''\<rparr>) env_good world0 ''https://youtu.be/a'' =
     fetchVideoMetadata settings_plain env_good world0 ''https://youtu.be/a'' \<and>
   map_option channel_icon_url
     (projr (snd (fetchVideoMetadata settings_plain env_good world0 ''https://youtu.be/a''))) = Some JNull"
  using fetchVideoMetadata_icon_gated [of settings_plain env_good world0 "''https://youtu.be/a''" "''k''"]
  by (simp add: settings_plain_def world0_def fetchVideoMetadata_def fetch_json_cases env_good_def
      embed_url_def good_embed_body_def own_prop_def)

section \<open>Resolving the channel icon: what is proved\<close>

text \<open>
  C6. \<open>fetchChannelIcon\<close> never throws. Once the lookup of the identifier has
  returned, the outcome follows the answer to the detail request: a failed request, a
  body that is not JSON and a body whose reading throws give \<open>null\<close> and one entry in the
  console; a body without items gives \<open>null\<close> and no entry. For a reference that is a
  string, a failed lookup is logged and a lookup without results is not; both make the
  identifier \<open>null\<close>, and the detail request is then still sent, for the identifier
  written \<open>null\<close>.
\<close>

theorem fetchChannelIcon_never_throws:
  "(\<exists>v. snd (fetchChannelIcon S E w a) = Inr v) \<and>
   (\<forall>w1 c cid. getChannelIdFromUrl S E w a = (w1, Inr c) \<and> to_string c = Inr cid \<longrightarrow>
      (net E (length (requests w1)) (channels_url cid (apiKey S)) = Failed \<longrightarrow>
         snd (fetchChannelIcon S E w a) = Inr JNull \<and>
         console (fst (fetchChannelIcon S E w a)) =
           console w1 @ [(''Error fetching channel icon:'', NetworkFailure)]) \<and>
      (net E (length (requests w1)) (channels_url cid (apiKey S)) = Malformed \<longrightarrow>
         snd (fetchChannelIcon S E w a) = Inr JNull \<and>
         console (fst (fetchChannelIcon S E w a)) =
           console w1 @ [(''Error fetching channel icon:'', SyntaxError)]) \<and>
      (\<forall>d. net E (length (requests w1)) (channels_url cid (apiKey S)) = Body d \<and>
           has_items E d = Inr False \<longrightarrow>
         snd (fetchChannelIcon S E w a) = Inr JNull \<and>
         console (fst (fetchChannelIcon S E w a)) = console w1) \<and>
      (\<forall>d e. net E (length (requests w1)) (channels_url cid (apiKey S)) = Body d \<and>
           (has_items E d = Inl e \<or> has_items E d = Inr True \<and> icon_url_of d = Inl e) \<longrightarrow>
         snd (fetchChannelIcon S E w a) = Inr JNull \<and>
         console (fst (fetchChannelIcon S E w a)) =
           console w1 @ [(''Error fetching channel icon:'', e)])) \<and>
   (\<forall>ref. a = JStr ref \<longrightarrow>
      (net E (length (requests w)) (search_url ref (apiKey S)) = Failed \<longrightarrow>
         getChannelIdFromUrl S E w a =
           (console_error ''Error fetching channel ID:'' NetworkFailure
              (w\<lparr>requests := requests w @ [search_url ref (apiKey S)]\<rparr>), Inr JNull)) \<and>
      (net E (length (requests w)) (search_url ref (apiKey S)) = Malformed \<longrightarrow>
         getChannelIdFromUrl S E w a =
           (console_error ''Error fetching channel ID:'' SyntaxError
              (w\<lparr>requests := requests w @ [search_url ref (apiKey S)]\<rparr>), Inr JNull)) \<and>
      (\<forall>d. net E (length (requests w)) (search_url ref (apiKey S)) = Body d \<and>
           has_items E d = Inr False \<longrightarrow>
         getChannelIdFromUrl S E w a =
           (w\<lparr>requests := requests w @ [search_url ref (apiKey S)]\<rparr>, Inr JNull)) \<and>
      (snd (getChannelIdFromUrl S E w a) = Inr JNull \<longrightarrow>
         requests (fst (fetchChannelIcon S E w a)) =
           requests w @ [search_url ref (apiKey S), channels_url ''null'' (apiKey S)]))"
proof (intro conjI allI impI)
  show "\<exists>v. snd (fetchChannelIcon S E w a) = Inr v" by (rule fetchChannelIcon_total)
next
  fix ref assume a: "a = JStr ref" and n: "snd (getChannelIdFromUrl S E w a) = Inr JNull"
  obtain w1 where g: "getChannelIdFromUrl S E w a = (w1, Inr JNull)"
    using n by (cases "getChannelIdFromUrl S E w a") auto
  have r: "requests w1 = requests w @ [search_url ref (apiKey S)]"
    using getChannelIdFromUrl_effects(2) [of a ref S E w] a g by simp
  show "requests (fst (fetchChannelIcon S E w a)) =
           requests w @ [search_url ref (apiKey S), channels_url ''null'' (apiKey S)]"
    using fetchChannelIcon_after_lookup [OF g, of "''null''"] r
    by (simp add: Let_def split: fetch_result.splits sum.splits bool.splits)
qed (auto simp: fetchChannelIcon_after_lookup getChannelIdFromUrl_string Let_def)

theorem fetchChannelIcon_never_throws_witness:
  "getChannelIdFromUrl DEFAULT_SETTINGS env_forbidden world0 (JStr ''https://www.youtube.com/@a'') =
     (world0\<lparr>requests := [search_url ''https://www.youtube.com/@a'' []]\<rparr>, Inr JNull) \<and>
   to_string JNull = Inr ''null'' \<and>
   net env_forbidden 1 (channels_url ''null'' []) =
     Body (JObj [(''error'', JObj [(''code'', JNum 403)])]) \<and>
   has_items env_forbidden (JObj [(''error'', JObj [(''code'', JNum 403)])]) = Inr False \<and>
   snd (fetchChannelIcon DEFAULT_SETTINGS env_forbidden world0 (JStr ''https://www.youtube.com/@a''))
     = Inr JNull \<and>
   requests (fst (fetchChannelIcon DEFAULT_SETTINGS env_forbidden world0
       (JStr ''https://www.youtube.com/@a''))) =
     [search_url ''https://www.youtube.com/@a'' [], channels_url ''null'' []]"
  using fetchChannelIcon_never_throws [of DEFAULT_SETTINGS env_forbidden world0
      "JStr ''https://www.youtube.com/@a''"]
  by (simp add: getChannelIdFromUrl_string env_forbidden_def DEFAULT_SETTINGS_def world0_def
      has_items_def own_prop_def)

text \<open>
  With an empty key the service answers both requests with an error object. The call
  gives \<open>null\<close> and the console stays empty: nothing is logged.
\<close>

theorem fetchChannelIcon_silent_counterexample:
  "snd (fetchChannelIcon DEFAULT_SETTINGS env_forbidden world0 (JStr ''https://www.youtube.com/@a''))
     = Inr JNull \<and>
   console (fst (fetchChannelIcon DEFAULT_SETTINGS env_forbidden world0
       (JStr ''https://www.youtube.com/@a''))) = []"
  by (simp add: fetchChannelIcon_def getChannelIdFromUrl_def fetch_json_cases env_forbidden_def
      DEFAULT_SETTINGS_def world0_def has_items_def own_prop_def)

section \<open>The addresses requested: what is proved\<close>

text \<open>An encoded component holds none of the characters that structure a query.\<close>

lemma hex_digit_plain: "hex_digit n \<in> set ''0123456789ABCDEF''"
  unfolding hex_digit_def by (rule nth_mem) simp

lemma hex_digit_not_reserved: "\<not> reserved (hex_digit n)"
proof
  assume "reserved (hex_digit n)"
  moreover have "\<not> reserved c" if "c \<in> set ''0123456789ABCDEF''" for c
    using that by (auto simp: reserved_def)
  ultimately show False using hex_digit_plain by blast
qed

lemma unreserved_not_reserved: "unreserved c \<Longrightarrow> \<not> reserved c"
  by (auto simp: unreserved_def reserved_def)

lemma pct_not_reserved: "c \<in> set (pct n) \<Longrightarrow> \<not> reserved c"
  using hex_digit_not_reserved by (auto simp: pct_def) (simp add: reserved_def)

lemma encode_unit_not_reserved: "c \<in> set (encode_unit x) \<Longrightarrow> \<not> reserved c"
  using pct_not_reserved unreserved_not_reserved
  by (fastforce simp: encode_unit_def split: if_splits)

lemma encode_unit_plain:
  "c \<in> set (encode_unit x) \<Longrightarrow> c \<noteq> CHR ''&'' \<and> c \<noteq> CHR ''#'' \<and> c \<noteq> CHR ''?'' \<and> c \<noteq> CHR ''=''"
  using encode_unit_not_reserved [of c x] by (auto simp: reserved_def)

lemma encodeURIComponent_plain:
  "c \<in> set (encodeURIComponent u) \<Longrightarrow> c \<noteq> CHR ''&'' \<and> c \<noteq> CHR ''#'' \<and> c \<noteq> CHR ''?'' \<and> c \<noteq> CHR ''=''"
  unfolding encodeURIComponent_def using encode_unit_plain by auto

lemma split_on_absent: "c \<notin> set s \<Longrightarrow> split_on c s = [s]"
  by (induction s) auto

lemma split_on_append: "c \<notin> set s \<Longrightarrow> split_on c (s @ c # t) = s # split_on c t"
  by (induction s) auto

lemma query_param_embed_url: "query_param ''url'' (embed_url u) = Some (encodeURIComponent u)"
proof -
  let ?e = "encodeURIComponent u"
  have e: "CHR ''#'' \<notin> set ?e" "CHR ''&'' \<notin> set ?e" "CHR ''?'' \<notin> set ?e"
    using encodeURIComponent_plain [of _ u] by blast+
  have 1: "takeWhile (\<lambda>c. c \<noteq> CHR ''#'') (embed_url u) = embed_url u"
    using e(1) by (auto simp: embed_url_def takeWhile_eq_all_conv)
  have 2: "drop 1 (dropWhile (\<lambda>c. c \<noteq> CHR ''?'') (embed_url u)) = ''url='' @ ?e"
    by (simp add: embed_url_def)
  have 3: "split_on CHR ''&'' (''url='' @ ?e) = [''url='' @ ?e]"
    using e(2) by (intro split_on_absent) auto
  show ?thesis
    unfolding query_param_def query_params_def Let_def 1 2 3 by simp
qed

lemma query_param_search_amp:
  "query_param ''q'' (search_url ''https://www.youtube.com/@a&b'' k) = Some ''https://www.youtube.com/@a''"
proof -
  obtain rest where r: "takeWhile (\<lambda>c. c \<noteq> CHR ''#'') (search_url ''https://www.youtube.com/@a&b'' k)
     = ''https://www.googleapis.com/youtube/v3/search?part=snippet&q=https://www.youtube.com/@a&b&type=channel&key='' @ rest"
    by (simp add: search_url_def)
  show ?thesis
    unfolding query_param_def query_params_def Let_def r
    by (simp split: list.splits)
qed

lemma query_param_search_hash:
  "query_param ''q'' (search_url ''Tom#1'' k) = Some ''Tom''"
  unfolding query_param_def query_params_def Let_def
  by (simp add: search_url_def)

text \<open>Decoding an encoded component gives the component back.\<close>

lemma hex_value_hex_digit: "hex_value (hex_digit n) = Some (n mod 16)"
proof -
  have all: "\<forall>i \<in> set [0 ..< 16]. hex_value (''0123456789ABCDEF'' ! i) = Some i"
    by code_simp
  have "n mod 16 \<in> set [0 ..< 16]" by simp
  with all show ?thesis unfolding hex_digit_def by blast
qed

lemma escaped_byte_pct: "n < 256 \<Longrightarrow> escaped_byte (pct n @ rest) = Some (n, rest)"
proof -
  assume "n < 256"
  then have "16 * (n div 16 mod 16) + n mod 16 = n" by simp
  then show ?thesis by (simp add: pct_def hex_value_hex_digit)
qed

lemma percent_reserved: "\<not> unreserved CHR ''%''"
  by (simp add: unreserved_def)

lemma decode_pct_low:
  assumes "n < 128"
  shows "decodeURIComponent (pct n @ rest) = map_option ((#) (char_of n)) (decodeURIComponent rest)"
proof -
  have "escaped_byte (pct n @ rest) = Some (n, rest)"
    using assms by (intro escaped_byte_pct) simp
  then have e: "escaped_byte (CHR ''%'' # hex_digit (n div 16) # hex_digit n # rest) = Some (n, rest)"
    by (simp only: pct_def append.simps)
  have "decodeURIComponent (CHR ''%'' # hex_digit (n div 16) # hex_digit n # rest) =
      map_option ((#) (char_of n)) (decodeURIComponent rest)"
    by (subst decodeURIComponent.simps(2)) (use e assms in \<open>simp del: escaped_byte.simps\<close>)
  then show ?thesis by (simp only: pct_def append.simps)
qed

lemma decode_pct_high:
  assumes "194 \<le> b1" "b1 \<le> 195" "128 \<le> b2" "b2 < 192"
  shows "decodeURIComponent (pct b1 @ pct b2 @ rest) =
     map_option ((#) (char_of ((b1 - 192) * 64 + (b2 - 128)))) (decodeURIComponent rest)"
proof -
  have "escaped_byte (pct b1 @ pct b2 @ rest) = Some (b1, pct b2 @ rest)"
    using assms by (intro escaped_byte_pct) simp
  then have e1: "escaped_byte (CHR ''%'' # hex_digit (b1 div 16) # hex_digit b1 # pct b2 @ rest) =
      Some (b1, pct b2 @ rest)"
    by (simp only: pct_def append.simps)
  have e2: "escaped_byte (pct b2 @ rest) = Some (b2, rest)"
    using assms by (intro escaped_byte_pct) simp
  have n1: "\<not> b1 < 128" using assms by simp
  have "decodeURIComponent (CHR ''%'' # hex_digit (b1 div 16) # hex_digit b1 # pct b2 @ rest) =
      map_option ((#) (char_of ((b1 - 192) * 64 + (b2 - 128)))) (decodeURIComponent rest)"
    by (subst decodeURIComponent.simps(2)) (use e1 e2 n1 assms in \<open>simp del: escaped_byte.simps\<close>)
  then show ?thesis by (simp only: pct_def append.simps)
qed

lemma decode_encode_unit:
  "decodeURIComponent (encode_unit c @ rest) = map_option ((#) c) (decodeURIComponent rest)"
proof (cases "unreserved c")
  case True
  with percent_reserved have "c \<noteq> CHR ''%''" by auto
  with True show ?thesis by (simp add: encode_unit_def)
next
  case False
  let ?n = "of_char c :: nat"
  have n: "?n < 256" by simp
  show ?thesis
  proof (cases "?n < 128")
    case True
    with False decode_pct_low [OF True, of rest] show ?thesis by (simp add: encode_unit_def)
  next
    case hi: False
    have ar: "194 \<le> 192 + k div 64 \<and> 192 + k div 64 \<le> 195 \<and> 128 \<le> 128 + k mod 64 \<and>
        128 + k mod 64 < 192 \<and> (192 + k div 64 - 192) * 64 + (128 + k mod 64 - 128) = k"
      if "k < 256" "\<not> k < 128" for k :: nat
      using that by simp arith
    from ar [OF n hi] decode_pct_high [of "192 + ?n div 64" "128 + ?n mod 64" rest]
    have "decodeURIComponent (pct (192 + ?n div 64) @ pct (128 + ?n mod 64) @ rest) =
        map_option ((#) (char_of ?n)) (decodeURIComponent rest)"
      by presburger
    with False hi show ?thesis by (simp add: encode_unit_def)
  qed
qed

lemma decode_encode: "decodeURIComponent (encodeURIComponent s) = Some s"
  by (induction s) (simp_all add: encodeURIComponent_def decode_encode_unit)

text \<open>
  C10. \<open>getChannelIdFromUrl\<close> writes the author reference into the query as it is,
  while \<open>fetchVideoMetadata\<close> percent-encodes the address it asks about: every
  character that is not unreserved is written as escaped bytes, and decoding gives the
  address back. The encoded address is read back whole as the value of \<open>url\<close>. A reference with an ampersand or a hash sign is
  cut there: the value read for \<open>q\<close> is a proper prefix of the reference.
\<close>

theorem search_query_not_encoded:
  "requests (fst (getChannelIdFromUrl S E w (JStr ref))) =
     requests w @ [''https://www.googleapis.com/youtube/v3/search?part=snippet&q='' @ ref @
                   ''&type=channel&key='' @ apiKey S] \<and>
   (\<exists>more. requests (fst (fetchVideoMetadata S E w u)) =
      requests w @ (''https://noembed.com/embed?url='' @ encodeURIComponent u) # more) \<and>
   query_param ''url'' (embed_url u) = Some (encodeURIComponent u) \<and>
   query_param ''q'' (search_url ''https://www.youtube.com/@a&b'' k) = Some ''https://www.youtube.com/@a'' \<and>
   strict_prefix ''https://www.youtube.com/@a'' ''https://www.youtube.com/@a&b'' \<and>
   query_param ''q'' (search_url ''Tom#1'' k) = Some ''Tom'' \<and>
   strict_prefix ''Tom'' ''Tom#1'' \<and>
   decodeURIComponent (encodeURIComponent u) = Some u \<and>
   embed_url ''https://youtu.be/a?b=c&d#e'' =
     ''https://noembed.com/embed?url=https%3A%2F%2Fyoutu.be%2Fa%3Fb%3Dc%26d%23e'' \<and>
   encodeURIComponent ''Tom & Co #1'' = ''Tom%20%26%20Co%20%231'' \<and>
   encodeURIComponent [CHR 0xE9] = ''%C3%A9''"
proof -
  have 1: "requests (fst (getChannelIdFromUrl S E w (JStr ref))) =
     requests w @ [''https://www.googleapis.com/youtube/v3/search?part=snippet&q='' @ ref @
                   ''&type=channel&key='' @ apiKey S]"
    using getChannelIdFromUrl_effects(2) [of "JStr ref" ref S E w] by (simp add: search_url_def)
  have 2: "\<exists>more. requests (fst (fetchVideoMetadata S E w u)) =
      requests w @ (''https://noembed.com/embed?url='' @ encodeURIComponent u) # more"
    using fetchVideoMetadata_first_request [of S E w u] by (simp add: embed_url_def)
  have 3: "strict_prefix ''https://www.youtube.com/@a'' ''https://www.youtube.com/@a&b''"
    "strict_prefix ''Tom'' ''Tom#1''"
    by (simp_all add: strict_prefix_def)
  have 4: "embed_url ''https://youtu.be/a?b=c&d#e'' =
     ''https://noembed.com/embed?url=https%3A%2F%2Fyoutu.be%2Fa%3Fb%3Dc%26d%23e''"
    "encodeURIComponent ''Tom & Co #1'' = ''Tom%20%26%20Co%20%231''"
    "encodeURIComponent [CHR 0xE9] = ''%C3%A9''"
    by code_simp+
  show ?thesis
    using 1 2 3 4 query_param_embed_url query_param_search_amp query_param_search_hash
      decode_encode
    by blast
qed

theorem search_query_not_encoded_witness:
  "requests (fst (getChannelIdFromUrl DEFAULT_SETTINGS env_forbidden world0 (JStr ''Tom#1''))) =
     [''https://www.googleapis.com/youtube/v3/search?part=snippet&q=Tom#1&type=channel&key=''] \<and>
   query_param ''url'' (embed_url ''Tom#1'') = Some ''Tom%231'' \<and>
   decodeURIComponent ''Tom%231'' = Some ''Tom#1'' \<and>
   query_param ''q'' (search_url ''Tom#1'' []) = Some ''Tom''"
proof -
  have e: "encodeURIComponent ''Tom#1'' = ''Tom%231''" by code_simp
  show ?thesis
    using search_query_not_encoded [of DEFAULT_SETTINGS env_forbidden world0 "''Tom#1''" "''Tom#1''" "[]"]
    by (simp add: e DEFAULT_SETTINGS_def world0_def)
qed

section \<open>Building the replacement: what is proved\<close>

lemma createPrettyLink_thumbnails:
  assumes "createPrettyLink S m = Inr n"
  shows "thumbnails n =
     (if showThumbnail S
      then [Elem ''img'' [(''class'', ''video-thumbnail''), (''src'', projr (to_string (thumbnail_url m)))] []]
      else [])"
  using assms
  by (auto simp: createPrettyLink_def Let_def createElement_def classList_add_def thumbnails_def
      is_thumbnail_def bind_e_Inr_iff split: if_splits)

lemma createPrettyLink_main_thumbnails:
  assumes "createPrettyLink_main S m = Inr n"
  shows "thumbnails n =
     (if showThumbnail S
      then [Elem ''img'' [(''class'', ''video-thumbnail''), (''src'', projr (to_string (thumbnail_url m)))] []]
      else [])"
  using assms
  by (auto simp: createPrettyLink_main_def Let_def createElement_def classList_add_def thumbnails_def
      is_thumbnail_def bind_e_Inr_iff split: if_splits)

lemma createPrettyLink_strings:
  assumes "title m = JStr t" "author_name m = JStr a" "thumbnail_url m = JStr th"
    "channel_icon_url m = JNull \<or> (\<exists>i. channel_icon_url m = JStr i)"
  shows "\<exists>n. createPrettyLink S m = Inr n"
  using assms by (auto simp: createPrettyLink_def Let_def dom_text_def)

lemma createPrettyLink_main_strings:
  assumes "title m = JStr t" "author_name m = JStr a" "thumbnail_url m = JStr th"
  shows "\<exists>n. createPrettyLink_main S m = Inr n"
  using assms by (auto simp: createPrettyLink_main_def Let_def dom_text_def)

text \<open>
  C7. In both variants the replacement holds a thumbnail image exactly when
  \<open>showThumbnail\<close> is set, and then exactly one, whose \<open>src\<close> is the thumbnail address as
  a string, empty or not. A record whose fields are strings always gives a replacement.
\<close>

theorem createPrettyLink_thumbnail_iff:
  "(createPrettyLink S m = Inr n \<longrightarrow>
      (thumbnails n \<noteq> [] \<longleftrightarrow> showThumbnail S) \<and>
      (showThumbnail S \<longrightarrow>
         thumbnails n = [Elem ''img'' [(''class'', ''video-thumbnail''),
                                       (''src'', projr (to_string (thumbnail_url m)))] []])) \<and>
   (createPrettyLink_main S m' = Inr n' \<longrightarrow>
      (thumbnails n' \<noteq> [] \<longleftrightarrow> showThumbnail S) \<and>
      (showThumbnail S \<longrightarrow>
         thumbnails n' = [Elem ''img'' [(''class'', ''video-thumbnail''),
                                        (''src'', projr (to_string (thumbnail_url m')))] []])) \<and>
   ((\<exists>t. title m = JStr t) \<and> (\<exists>a. author_name m = JStr a) \<and> (\<exists>th. thumbnail_url m = JStr th) \<and>
    (channel_icon_url m = JNull \<or> (\<exists>i. channel_icon_url m = JStr i)) \<longrightarrow>
      (\<exists>n. createPrettyLink S m = Inr n)) \<and>
   ((\<exists>t. title m' = JStr t) \<and> (\<exists>a. author_name m' = JStr a) \<and> (\<exists>th. thumbnail_url m' = JStr th) \<longrightarrow>
      (\<exists>n. createPrettyLink_main S m' = Inr n))"
  using createPrettyLink_thumbnails [of S m n] createPrettyLink_main_thumbnails [of S m' n']
    createPrettyLink_strings [of m _ _ _ S] createPrettyLink_main_strings [of m' _ _ _ S]
  by (auto simp del: not_Cons_self2)

theorem createPrettyLink_thumbnail_iff_witness:
  "createPrettyLink settings_plain metadata_no_thumbnail =
     Inr (Elem ''a''
       [(''class'', ''video-metadata-container''),
        (''href'', ''https://youtu.be/a''), (''target'', ''_blank''),
        (''rel'', ''noopener noreferrer'')]
       [Elem ''img'' [(''class'', ''video-thumbnail''), (''src'', [])] [],
        Elem ''div'' [(''class'', ''banner'')]
         [Elem ''div'' [(''class'', ''video-text-container'')]
           [Elem ''strong'' [] [Text ''A video''],
            Elem ''span'' [] [Text ''An author'']]]]) \<and>
   showThumbnail settings_plain \<and>
   thumbnails (Elem ''a''
       [(''class'', ''video-metadata-container''),
        (''href'', ''https://youtu.be/a''), (''target'', ''_blank''),
        (''rel'', ''noopener noreferrer'')]
       [Elem ''img'' [(''class'', ''video-thumbnail''), (''src'', [])] [],
        Elem ''div'' [(''class'', ''banner'')]
         [Elem ''div'' [(''class'', ''video-text-container'')]
           [Elem ''strong'' [] [Text ''A video''],
            Elem ''span'' [] [Text ''An author'']]]]) \<noteq> []"
proof -
  have c: "createPrettyLink settings_plain metadata_no_thumbnail =
     Inr (Elem ''a''
       [(''class'', ''video-metadata-container''),
        (''href'', ''https://youtu.be/a''), (''target'', ''_blank''),
        (''rel'', ''noopener noreferrer'')]
       [Elem ''img'' [(''class'', ''video-thumbnail''), (''src'', [])] [],
        Elem ''div'' [(''class'', ''banner'')]
         [Elem ''div'' [(''class'', ''video-text-container'')]
           [Elem ''strong'' [] [Text ''A video''],
            Elem ''span'' [] [Text ''An author'']]]])"
    by (simp add: createPrettyLink_def settings_plain_def metadata_no_thumbnail_def Let_def
        createElement_def classList_add_def dom_text_def)
  have s: "showThumbnail settings_plain" by (simp add: settings_plain_def)
  show ?thesis
    using createPrettyLink_thumbnail_iff [of settings_plain metadata_no_thumbnail _ metadata_no_thumbnail] c s
    by blast
qed

text \<open>
  With \<open>showThumbnail\<close> set and an empty thumbnail address, both variants still put the
  image in, with an empty \<open>src\<close>.
\<close>

theorem createPrettyLink_empty_thumbnail_counterexample:
  "showThumbnail settings_plain \<and> thumbnail_url metadata_no_thumbnail = JStr [] \<and>
   createPrettyLink settings_plain metadata_no_thumbnail =
     Inr (Elem ''a''
       [(''class'', ''video-metadata-container''),
        (''href'', ''https://youtu.be/a''), (''target'', ''_blank''),
        (''rel'', ''noopener noreferrer'')]
       [Elem ''img'' [(''class'', ''video-thumbnail''), (''src'', [])] [],
        Elem ''div'' [(''class'', ''banner'')]
         [Elem ''div'' [(''class'', ''video-text-container'')]
           [Elem ''strong'' [] [Text ''A video''],
            Elem ''span'' [] [Text ''An author'']]]]) \<and>
   createPrettyLink_main settings_plain metadata_no_thumbnail =
     Inr (Elem ''div'' [(''class'', ''video-metadata-container'')]
       [Elem ''img'' [(''class'', ''video-thumbnail''), (''src'', [])] [],
        Elem ''div'' [(''class'', ''video-title'')] [Text ''A video''],
        Elem ''div'' [(''class'', ''video-author'')] [Text ''by An author'']])"
  by (simp add: createPrettyLink_def createPrettyLink_main_def settings_plain_def
      metadata_no_thumbnail_def Let_def createElement_def classList_add_def dom_text_def)

section \<open>The passes: what is proved\<close>

lemma process_anchors_skip:
  "(\<forall>(p, a) \<in> set xs. \<forall>u. getAttribute a ''href'' = Some u \<longrightarrow> \<not> isYouTubeUrl u) \<Longrightarrow>
   process_anchors S E xs st = (st, None)"
  by (induction xs arbitrary: st) (auto split: option.splits)

lemma match_all_none: "\<not> isYouTubeUrl html \<Longrightarrow> match_all youtubeRegex html = []"
proof -
  assume "\<not> isYouTubeUrl html"
  then have "rx_exec youtubeRegex html = None" unfolding isYouTubeUrl_def rx_test_def by blast
  then show ?thesis by (subst match_all.simps) simp
qed

lemma createPrettyLink_is_anchor:
  "createPrettyLink S m = Inr n \<Longrightarrow> is_anchor n \<and> getAttribute n ''href'' = Some (url m)"
  by (auto simp: createPrettyLink_def Let_def createElement_def classList_add_def bind_e_Inr_iff
      split: if_splits)

text \<open>
  C3. A pass over a fragment in which no anchor has a recognised address as its
  \<open>href\<close>, or over markup in which the pattern finds nothing, replaces nothing, sends no
  request and leaves the content as it is. The replacement of the variant with the
  channel icon is itself an anchor whose \<open>href\<close> is the address it was built for, so a
  fragment that holds replacements is not of that kind.
\<close>

theorem processMarkdown_without_candidates:
  "((\<forall>(p, a) \<in> set (querySelectorAll_a root). \<forall>u. getAttribute a ''href'' = Some u \<longrightarrow> \<not> isYouTubeUrl u) \<longrightarrow>
      processMarkdown S E w root = (\<lparr>pworld = w, fragment = root, replaced = []\<rparr>, None)) \<and>
   (\<not> isYouTubeUrl html \<longrightarrow> processMarkdown_main S E w html = ((w, html), None)) \<and>
   (createPrettyLink S m = Inr n \<longrightarrow> is_anchor n \<and> getAttribute n ''href'' = Some (url m))"
  using process_anchors_skip [of "querySelectorAll_a root" S E "\<lparr>pworld = w, fragment = root, replaced = []\<rparr>"]
    match_all_none [of html] createPrettyLink_is_anchor [of S m n]
  by (simp add: processMarkdown_def processMarkdown_main_def)

theorem processMarkdown_without_candidates_witness:
  "querySelectorAll_a (Elem ''p'' [] [Elem ''a'' [(''href'', ''https://example.org/'')] [Text ''a link'']]) =
     [([0], Elem ''a'' [(''href'', ''https://example.org/'')] [Text ''a link''])] \<and>
   \<not> isYouTubeUrl ''https://example.org/'' \<and>
   processMarkdown settings_plain env_good world0
       (Elem ''p'' [] [Elem ''a'' [(''href'', ''https://example.org/'')] [Text ''a link'']]) =
     (\<lparr>pworld = world0,
       fragment = Elem ''p'' [] [Elem ''a'' [(''href'', ''https://example.org/'')] [Text ''a link'']],
       replaced = []\<rparr>, None) \<and>
   \<not> isYouTubeUrl ''<p>a link</p>'' \<and>
   processMarkdown_main settings_plain env_good world0 ''<p>a link</p>'' = ((world0, ''<p>a link</p>''), None)"
proof -
  have q: "querySelectorAll_a (Elem ''p'' [] [Elem ''a'' [(''href'', ''https://example.org/'')] [Text ''a link'']]) =
     [([0], Elem ''a'' [(''href'', ''https://example.org/'')] [Text ''a link''])]"
    by (simp add: querySelectorAll_a_def)
  have n: "\<not> isYouTubeUrl ''https://example.org/''" "\<not> isYouTubeUrl ''<p>a link</p>''"
    by (simp_all add: isYouTubeUrl_def rx_test_def youtubeRegex_def is_space_def)
  show ?thesis
    using processMarkdown_without_candidates [of
        "Elem ''p'' [] [Elem ''a'' [(''href'', ''https://example.org/'')] [Text ''a link'']]"
        settings_plain env_good world0 "''<p>a link</p>''"] q n
    by simp
qed

text \<open>
  A pass turns the plain link of \<open>fragment0\<close> into a replacement. A second pass over
  the result finds the replacement among the anchors, asks the embed service again and
  replaces it once more.
\<close>

theorem processMarkdown_second_pass_counterexample:
  "processMarkdown settings_plain env_good world0 fragment0 =
     (\<lparr>pworld = world0\<lparr>requests := [embed_url ''https://youtu.be/a'']\<rparr>,
       fragment = fragment1, replaced = [[0]]\<rparr>, None) \<and>
   querySelectorAll_a fragment1 = [([0], link_anchor)] \<and>
   processMarkdown settings_plain env_good world0 fragment1 =
     (\<lparr>pworld = world0\<lparr>requests := [embed_url ''https://youtu.be/a'']\<rparr>,
       fragment = fragment1, replaced = [[0]]\<rparr>, None)"
  by code_simp

text \<open>
  The replacement of the variant without the channel icon is a \<open>div\<close> that holds no
  address the pattern finds, unless a field of the metadata quotes one: a second pass
  over it changes nothing.
\<close>

lemma processMarkdown_main_second_pass_example:
  "processMarkdown_main settings_plain env_good world0 ''https://youtu.be/a'' =
     ((world0\<lparr>requests := [embed_url ''https://youtu.be/a'']\<rparr>, outerHTML link_main), None) \<and>
   processMarkdown_main settings_plain env_good world0 (outerHTML link_main) =
     ((world0, outerHTML link_main), None)"
  by code_simp

text \<open>
  C8. In the variant that works on the markup, the pattern finds two candidates in
  \<open>https://youtu.be/ab https://youtu.be/a\<close>. The request for the first fails, so
  its metadata is \<open>null\<close>; the second is resolved, and \<open>replace\<close> then looks for the text
  of the second address from the start of the markup and finds it inside the first
  candidate. The candidate that failed is overwritten and the one that was resolved
  stays as it was.
\<close>

theorem processMarkdown_main_rewrites_failed_candidate:
  "match_all youtubeRegex ''https://youtu.be/ab https://youtu.be/a'' =
     [''https://youtu.be/ab'', ''https://youtu.be/a''] \<and>
   snd (fetchVideoMetadata_main env_first_fails world0 ''https://youtu.be/ab'') = Inr None \<and>
   processMarkdown_main settings_plain env_first_fails world0
       ''https://youtu.be/ab https://youtu.be/a'' =
     ((\<lparr>requests = [embed_url ''https://youtu.be/ab'', embed_url ''https://youtu.be/a''],
        console = [(''Error fetching video metadata:'', NetworkFailure)],
        notices = [], persisted = None\<rparr>,
       outerHTML link_main @ ''b https://youtu.be/a''), None)"
  by code_simp

text \<open>
  C9. The same address twice, both resolved, with a title that quotes the address. The
  first replacement puts the title into the markup; the second \<open>replace\<close> finds the
  address there, inside the output of the first, and the second occurrence stays as it
  was.
\<close>

theorem processMarkdown_main_rewrites_inside_output:
  "match_all youtubeRegex ''https://youtu.be/a https://youtu.be/a'' =
     [''https://youtu.be/a'', ''https://youtu.be/a''] \<and>
   createPrettyLink_main settings_plain
     \<lparr>title = JStr ''Mirror of https://youtu.be/a'', author_name = JStr ''An author'',
      thumbnail_url = JStr ''https://i.ytimg.com/vi/a/hqdefault.jpg''\<rparr> = Inr link_mirror \<and>
   snd (fst (processMarkdown_main settings_plain env_mirror world0
       ''https://youtu.be/a https://youtu.be/a'')) =
     ''<div class='' @ quot @ ''video-metadata-container'' @ quot @
     ''><img class='' @ quot @ ''video-thumbnail'' @ quot @
     '' src='' @ quot @ ''https://i.ytimg.com/vi/a/hqdefault.jpg'' @ quot @
     ''><div class='' @ quot @ ''video-title'' @ quot @ ''>Mirror of '' @
     outerHTML link_mirror @
     ''</div><div class='' @ quot @ ''video-author'' @ quot @ ''>by An author</div></div>'' @
     '' https://youtu.be/a''"
  by code_simp

text \<open>
  The variant with the channel icon replaces a node where it stands, and its pass does
  not have this defect: whatever is neither inside nor above a replaced anchor is after
  the pass what it was before.
\<close>

lemma node_at_replace_at:
  "\<not> prefix q p \<Longrightarrow> \<not> prefix p q \<Longrightarrow> node_at (replace_at n q new) p = node_at n p"
proof (induction n q new arbitrary: p rule: replace_at.induct)
  case (1 n new)
  then show ?case by simp
next
  case (2 s i q new)
  then show ?case by simp
next
  case (3 t as cs i q new)
  from "3.prems" obtain j p' where p: "p = j # p'" by (cases p) auto
  show ?case
  proof (cases "i < length cs")
    case True
    show ?thesis
    proof (cases "j = i")
      case True
      with p "3.prems" have "\<not> prefix q p'" "\<not> prefix p' q" by auto
      with "3.IH" [OF \<open>i < length cs\<close>] have "node_at (replace_at (cs ! i) q new) p' = node_at (cs ! i) p'"
        by blast
      with True p \<open>i < length cs\<close> show ?thesis by simp
    next
      case False
      with p \<open>i < length cs\<close> show ?thesis by simp
    qed
  next
    case False
    then show ?thesis by simp
  qed
qed

lemma replaceWith_frame:
  "\<not> prefix q p \<Longrightarrow> \<not> prefix p q \<Longrightarrow>
   node_at (fragment (replaceWith q new st)) p = node_at (fragment st) p"
  by (simp add: replaceWith_def node_at_replace_at)

lemma process_anchors_replaced_mono:
  "process_anchors S E xs st = (st', e) \<Longrightarrow> set (replaced st) \<subseteq> set (replaced st')"
proof (induction xs arbitrary: st)
  case Nil
  then show ?case by simp
next
  case (Cons x xs)
  obtain p a where x: "x = (p, a)" by (cases x)
  show ?case
    using Cons.prems Cons.IH unfolding x
    by (fastforce simp: replaceWith_def split: option.splits if_splits prod.splits sum.splits)
qed

lemma process_anchors_frame:
  "process_anchors S E xs st = (st', e) \<Longrightarrow>
   (\<forall>q \<in> set (replaced st'). \<not> prefix q p \<and> \<not> prefix p q) \<Longrightarrow>
   node_at (fragment st') p = node_at (fragment st) p"
proof (induction xs arbitrary: st)
  case Nil
  then show ?case by simp
next
  case (Cons x xs)
  obtain p0 a where x: "x = (p0, a)" by (cases x)
  show ?case
  proof (cases "getAttribute a ''href''")
    case None
    with Cons x show ?thesis by simp
  next
    case (Some u)
    show ?thesis
    proof (cases "u \<noteq> [] \<and> isYouTubeUrl u")
      case False
      with Cons x Some show ?thesis by auto
    next
      case True
      obtain w r where f: "fetchVideoMetadata S E (pworld st) u = (w, r)"
        by (cases "fetchVideoMetadata S E (pworld st) u")
      show ?thesis
      proof (cases r)
        case (Inl err)
        with Cons.prems x Some True f show ?thesis by auto
      next
        case (Inr mo)
        show ?thesis
        proof (cases mo)
          case None
          with Cons.prems x Some True f Inr
          have "process_anchors S E xs (st\<lparr>pworld := w\<rparr>) = (st', e)" by simp
          from Cons.IH [OF this Cons.prems(2)] show ?thesis by simp
        next
          case (Some m)
          show ?thesis
          proof (cases "createPrettyLink S m")
            case (Inl err)
            with Cons.prems x \<open>getAttribute a ''href'' = Some u\<close> True f Inr Some show ?thesis by auto
          next
            case (Inr link)
            let ?st1 = "replaceWith p0 link (st\<lparr>pworld := w\<rparr>)"
            from Cons.prems x \<open>getAttribute a ''href'' = Some u\<close> True f \<open>r = Inr mo\<close> Some Inr
            have run: "process_anchors S E xs ?st1 = (st', e)" by simp
            have "p0 \<in> set (replaced ?st1)" by (simp add: replaceWith_def)
            with process_anchors_replaced_mono [OF run] have "p0 \<in> set (replaced st')" by blast
            with Cons.prems(2) have "\<not> prefix p0 p" "\<not> prefix p p0" by blast+
            then have "node_at (fragment ?st1) p = node_at (fragment (st\<lparr>pworld := w\<rparr>)) p"
              by (rule replaceWith_frame)
            with Cons.IH [OF run Cons.prems(2)] show ?thesis by simp
          qed
        qed
      qed
    qed
  qed
qed

lemma processMarkdown_frame:
  "processMarkdown S E w root = (st', e) \<Longrightarrow>
   (\<forall>q \<in> set (replaced st'). \<not> prefix q p \<and> \<not> prefix p q) \<Longrightarrow>
   node_at (fragment st') p = node_at root p"
  using process_anchors_frame [of S E "querySelectorAll_a root" _ st' e p]
  by (simp add: processMarkdown_def)

end
